theory Spec2Isabelle
  imports Complex_Main
begin

section \<open>Finite-volume isothermal Euler solver: the embedding\<close>

text \<open>
  The source is \<^verbatim>\<open>CFD Finite Volume.py\<close>. Its fields are two-dimensional NumPy arrays of
  floats. Here a field is a list of rows, each row a list of numbers, and a float is
  idealised as a real number: rounding, infinities and NaN are not modelled. Where the
  source would divide by zero (NumPy then gives an infinity or NaN) the model has HOL's
  total division; a theorem whose conclusion depends on the value of such a quotient
  states the non-zero condition it needs.

  All array arithmetic of the source is elementwise on arrays of one shape (every array in
  \<^verbatim>\<open>main\<close> is \<open>N \<times> N\<close>); the model's elementwise operations are meant for that case,
  and the theorems assume it through the predicate \<open>grid\<close>.
\<close>

type_synonym field = "real list list"

definition grid :: "nat \<Rightarrow> nat \<Rightarrow> field \<Rightarrow> bool" where
  "grid n m A = (length A = n \<and> list_all (\<lambda>r. length r = m) A)"

subsection \<open>NumPy primitives\<close>

text \<open>Elementwise unary and binary operations on arrays of equal shape.\<close>

definition ew1 :: "(real \<Rightarrow> real) \<Rightarrow> field \<Rightarrow> field" where
  "ew1 g A = map (map g) A"

definition ew2 :: "(real \<Rightarrow> real \<Rightarrow> real) \<Rightarrow> field \<Rightarrow> field \<Rightarrow> field" where
  "ew2 g A B = map2 (map2 g) A B"

abbreviation fadd :: "field \<Rightarrow> field \<Rightarrow> field" where "fadd \<equiv> ew2 (+)"
abbreviation fsub :: "field \<Rightarrow> field \<Rightarrow> field" where "fsub \<equiv> ew2 (-)"
abbreviation fmul :: "field \<Rightarrow> field \<Rightarrow> field" where "fmul \<equiv> ew2 (*)"
abbreviation fdiv :: "field \<Rightarrow> field \<Rightarrow> field" where "fdiv \<equiv> ew2 (/)"

text \<open>
  \<^verbatim>\<open>np.roll(a, s)\<close> on a one-dimensional array: the result at index \<open>i\<close> is the input at
  index \<open>(i - s) mod n\<close>. \<open>rotate k\<close> moves the first \<open>k\<close> elements to the end, so its
  result at \<open>i\<close> is the input at \<open>(i + k) mod n\<close>.
\<close>

definition roll :: "int \<Rightarrow> 'a list \<Rightarrow> 'a list" where
  "roll s xs = (if xs = [] then [] else rotate (nat ((- s) mod int (length xs))) xs)"

text \<open>
  \<^verbatim>\<open>np.roll(f, s, axis=a)\<close> on a two-dimensional array: axis 0 rolls the rows, axis 1 rolls
  inside each row. The source uses no other axis.
\<close>

definition np_roll :: "field \<Rightarrow> int \<Rightarrow> nat \<Rightarrow> field" where
  "np_roll f s axis = (if axis = 0 then roll s f else map (roll s) f)"

text \<open>\<^verbatim>\<open>np.min\<close> of a non-empty array (it raises on an empty one; \<^verbatim>\<open>main\<close> never has one).\<close>

definition np_min :: "field \<Rightarrow> real" where
  "np_min A = Min (set (concat A))"

text \<open>The sum over all cells and the value of one cell.\<close>

definition total :: "field \<Rightarrow> real" where
  "total A = sum_list (map sum_list A)"

definition cell :: "field \<Rightarrow> nat \<Rightarrow> nat \<Rightarrow> real" where
  "cell A i j = A ! i ! j"

subsection \<open>Module constants\<close>

definition R :: int where "R = - 1"
definition L :: int where "L = 1"
definition aX :: nat where "aX = 1"
definition aY :: nat where "aY = 0"

subsection \<open>Conserved and primitive variables\<close>

definition conserved_variables :: "field \<Rightarrow> field \<Rightarrow> field \<Rightarrow> real \<Rightarrow> field \<times> field \<times> field" where
  "conserved_variables rho vx vy V =
     (let m = ew1 (\<lambda>r. r * V) rho;
          px = fmul (ew1 (\<lambda>r. r * V) rho) vx;
          py = fmul (ew1 (\<lambda>r. r * V) rho) vy
      in (m, px, py))"

definition primitive_variables :: "field \<Rightarrow> field \<Rightarrow> field \<Rightarrow> real \<Rightarrow> field \<times> field \<times> field" where
  "primitive_variables m px py V =
     (let rho = ew1 (\<lambda>x. x / V) m;
          vx = ew1 (\<lambda>x. x / V) (fdiv px rho);
          vy = ew1 (\<lambda>x. x / V) (fdiv py rho)
      in (rho, vx, vy))"

subsection \<open>Gradients, face extrapolation, flux application\<close>

definition grad :: "field \<Rightarrow> real \<Rightarrow> field \<times> field" where
  "grad f dx =
     (let f_dx = ew1 (\<lambda>x. x / (2 * dx)) (fsub (np_roll f R aX) (np_roll f L aX));
          f_dy = ew1 (\<lambda>x. x / (2 * dx)) (fsub (np_roll f R aY) (np_roll f L aY))
      in (f_dx, f_dy))"

definition extrapolate :: "field \<Rightarrow> field \<Rightarrow> field \<Rightarrow> real \<Rightarrow> field \<times> field \<times> field \<times> field" where
  "extrapolate f f_dx f_dy dx =
     (let f_XL = fsub f (ew1 (\<lambda>x. x * dx / 2) f_dx);
          f_XL = np_roll f_XL R aX;
          f_XR = fadd f (ew1 (\<lambda>x. x * dx / 2) f_dx);
          f_YL = fsub f (ew1 (\<lambda>x. x * dx / 2) f_dy);
          f_YL = np_roll f_YL R aY;
          f_YR = fadd f (ew1 (\<lambda>x. x * dx / 2) f_dy)
      in (f_XL, f_XR, f_YL, f_YR))"

text \<open>
  \<^verbatim>\<open>apply_flux\<close> updates \<open>F\<close> in place, four times; the model threads the updated array.
\<close>

definition apply_flux :: "field \<Rightarrow> field \<Rightarrow> field \<Rightarrow> real \<Rightarrow> real \<Rightarrow> field" where
  "apply_flux F flux_F_X flux_F_Y dx dt =
     (let F = fadd F (ew1 (\<lambda>x. - dt * dx * x) flux_F_X);
          F = fadd F (ew1 (\<lambda>x. dt * dx * x) (np_roll flux_F_X L aX));
          F = fadd F (ew1 (\<lambda>x. - dt * dx * x) flux_F_Y);
          F = fadd F (ew1 (\<lambda>x. dt * dx * x) (np_roll flux_F_Y L aY))
      in F)"

subsection \<open>The Riemann solver\<close>

text \<open>
  In the source \<^verbatim>\<open>flux_Mass = momx_star\<close> binds a second name to the same array, and the
  later \<^verbatim>\<open>flux_Mass -= ...\<close> changes that array in place. \<^verbatim>\<open>flux_Momx\<close> and \<^verbatim>\<open>flux_Momy\<close>
  are computed from \<^verbatim>\<open>momx_star\<close> before that update, and \<^verbatim>\<open>momx_star\<close> is not read after
  it; the bindings below are in the source's order.
\<close>

definition get_flux ::
  "field \<Rightarrow> field \<Rightarrow> field \<Rightarrow> field \<Rightarrow> field \<Rightarrow> field \<Rightarrow> field \<times> field \<times> field" where
  "get_flux rho_L rho_R vx_L vx_R vy_L vy_R =
     (let rho_star = ew1 (\<lambda>x. 0.5 * x) (fadd rho_L rho_R);
          momx_star = ew1 (\<lambda>x. 0.5 * x) (fadd (fmul rho_L vx_L) (fmul rho_R vx_R));
          momy_star = ew1 (\<lambda>x. 0.5 * x) (fadd (fmul rho_L vy_L) (fmul rho_R vy_R));
          P_star = rho_star;
          flux_Mass = momx_star;
          flux_Momx = fadd (fdiv (ew1 (\<lambda>x. x ^ 2) momx_star) rho_star) P_star;
          flux_Momy = fdiv (fmul momx_star momy_star) rho_star;
          C_L = ew1 (\<lambda>x. 1 + \<bar>x\<bar>) vx_L;
          C_R = ew1 (\<lambda>x. 1 + \<bar>x\<bar>) vx_R;
          C = ew2 max C_L C_R;
          flux_Mass = fsub flux_Mass (fmul (ew1 (\<lambda>x. x * 0.5) C) (fsub rho_L rho_R));
          flux_Momx = fsub flux_Momx
                        (fmul (ew1 (\<lambda>x. x * 0.5) C) (fsub (fmul rho_L vx_L) (fmul rho_R vx_R)));
          flux_Momy = fsub flux_Momy
                        (fmul (ew1 (\<lambda>x. x * 0.5) C) (fsub (fmul rho_L vy_L) (fmul rho_R vy_R)))
      in (flux_Mass, flux_Momx, flux_Momy))"

subsection \<open>The simulation\<close>

text \<open>
  \<^verbatim>\<open>main\<close> fixes its parameters as local constants. The model takes them as a record, so
  that statements about other resolutions, end times and frame counts can be made;
  \<open>default_config\<close> holds the values of the source.
\<close>

record config =
  N :: int
  courant_fac :: real
  tEnd :: real
  Nout :: int
  Lbox :: real

definition default_config :: config where
  "default_config =
     \<lparr>N = 100, courant_fac = 0.5, tEnd = 1 / sqrt 3, Nout = 100, Lbox = 1\<rparr>"

text \<open>
  The loop state: the conserved arrays, the time and the frame counter. \<open>frames\<close> is the
  model's record of the drawing calls: the time \<open>t\<close> at each turn that draws a frame, in
  order. The drawing itself (matplotlib) is outside the model.
\<close>

record sim_state =
  Mass :: field
  Momx :: field
  Momy :: field
  t :: real
  outputCount :: int
  frames :: "real list"

definition dx_of :: "config \<Rightarrow> real" where
  "dx_of cfg = Lbox cfg / real_of_int (N cfg)"

definition vol_of :: "config \<Rightarrow> real" where
  "vol_of cfg = (dx_of cfg) ^ 2"

text \<open>
  The time of the next frame, \<^verbatim>\<open>outputCount*tEnd/Nout\<close>. In the source \<^verbatim>\<open>tEnd\<close> is a NumPy
  float, so that \<^verbatim>\<open>Nout = 0\<close> gives an infinity or NaN and no exception; nothing below
  depends on the value of the quotient in that case.
\<close>

definition next_output :: "config \<Rightarrow> int \<Rightarrow> real" where
  "next_output cfg k = real_of_int k * tEnd cfg / real_of_int (Nout cfg)"

text \<open>The CFL time step of the current velocities (line 192).\<close>

definition cfl_dt :: "config \<Rightarrow> field \<Rightarrow> field \<Rightarrow> real" where
  "cfl_dt cfg vx vy =
     courant_fac cfg *
       np_min (ew1 (\<lambda>x. dx_of cfg / x)
                 (ew1 (\<lambda>x. 1 + x) (ew1 sqrt (fadd (ew1 (\<lambda>x. x ^ 2) vx) (ew1 (\<lambda>x. x ^ 2) vy)))))"

text \<open>The time step of this turn and \<^verbatim>\<open>plotThisTurn\<close> (lines 192 to 196).\<close>

definition get_dt :: "config \<Rightarrow> sim_state \<Rightarrow> field \<Rightarrow> field \<Rightarrow> real \<times> bool" where
  "get_dt cfg s vx vy =
     (let dt = cfl_dt cfg vx vy;
          plotThisTurn = False
      in if t s + dt > next_output cfg (outputCount s)
         then (next_output cfg (outputCount s) - t s, True)
         else (dt, plotThisTurn))"

text \<open>The half step in time (lines 206 to 208); \<^verbatim>\<open>P_dx\<close> and \<^verbatim>\<open>P_dy\<close> are the density gradients.\<close>

definition half_step ::
  "real \<Rightarrow> field \<Rightarrow> field \<Rightarrow> field \<Rightarrow> field \<Rightarrow> field \<Rightarrow> field \<Rightarrow> field \<Rightarrow> field \<Rightarrow> field
     \<Rightarrow> field \<times> field \<times> field" where
  "half_step dt rho vx vy rho_dx rho_dy vx_dx vx_dy vy_dx vy_dy =
     (let P_dx = rho_dx;
          P_dy = rho_dy;
          rho_prime = fsub rho (ew1 (\<lambda>x. 0.5 * dt * x)
                        (fadd (fadd (fadd (fmul vx rho_dx) (fmul rho vx_dx)) (fmul vy rho_dy))
                              (fmul rho vy_dy)));
          vx_prime = fsub vx (ew1 (\<lambda>x. 0.5 * dt * x)
                        (fadd (fadd (fmul vx vx_dx) (fmul vy vx_dy))
                              (fmul (ew1 (\<lambda>x. 1 / x) rho) P_dx)));
          vy_prime = fsub vy (ew1 (\<lambda>x. 0.5 * dt * x)
                        (fadd (fadd (fmul vx vy_dx) (fmul vy vy_dy))
                              (fmul (ew1 (\<lambda>x. 1 / x) rho) P_dy)))
      in (rho_prime, vx_prime, vy_prime))"

text \<open>
  The first part of one turn of the main loop (lines 188 to 213): the time step,
  \<^verbatim>\<open>plotThisTurn\<close>, and the face values of density and velocities.
\<close>

type_synonym faces = "field \<times> field \<times> field \<times> field"

definition face_states :: "config \<Rightarrow> sim_state \<Rightarrow> real \<times> bool \<times> faces \<times> faces \<times> faces" where
  "face_states cfg s =
     (let dx = dx_of cfg;
          vol = vol_of cfg;
          (rho, vx, vy) = primitive_variables (Mass s) (Momx s) (Momy s) vol;
          (dt, plotThisTurn) = get_dt cfg s vx vy;
          (rho_dx, rho_dy) = grad rho dx;
          (vx_dx, vx_dy) = grad vx dx;
          (vy_dx, vy_dy) = grad vy dx;
          (rho_prime, vx_prime, vy_prime) =
             half_step dt rho vx vy rho_dx rho_dy vx_dx vx_dy vy_dx vy_dy
      in (dt, plotThisTurn,
          extrapolate rho_prime rho_dx rho_dy dx,
          extrapolate vx_prime vx_dx vx_dy dx,
          extrapolate vy_prime vy_dx vy_dy dx))"

text \<open>
  One turn of the main loop (lines 188 to 246): the face states, the two calls of the
  Riemann solver, the update of the conserved arrays and of the time, and the frame.
\<close>

definition step :: "config \<Rightarrow> sim_state \<Rightarrow> sim_state" where
  "step cfg s =
     (let dx = dx_of cfg;
          (dt, plotThisTurn,
           (rho_XL, rho_XR, rho_YL, rho_YR),
           (vx_XL, vx_XR, vx_YL, vx_YR),
           (vy_XL, vy_XR, vy_YL, vy_YR)) = face_states cfg s;
          (flux_Mass_X, flux_Momx_X, flux_Momy_X) =
             get_flux rho_XL rho_XR vx_XL vx_XR vy_XL vy_XR;
          (flux_Mass_Y, flux_Momy_Y, flux_Momx_Y) =
             get_flux rho_YL rho_YR vy_YL vy_YR vx_YL vx_YR
      in \<lparr>Mass = apply_flux (Mass s) flux_Mass_X flux_Mass_Y dx dt,
          Momx = apply_flux (Momx s) flux_Momx_X flux_Momx_Y dx dt,
          Momy = apply_flux (Momy s) flux_Momy_X flux_Momy_Y dx dt,
          t = t s + dt,
          outputCount = (if plotThisTurn then outputCount s + 1 else outputCount s),
          frames = (if plotThisTurn then frames s @ [t s + dt] else frames s)\<rparr>)"

text \<open>
  The loop \<^verbatim>\<open>while t < tEnd\<close>, with fuel: \<open>None\<close> when the fuel does not suffice.
\<close>

fun main_loop :: "nat \<Rightarrow> config \<Rightarrow> sim_state \<Rightarrow> sim_state option" where
  "main_loop 0 cfg s = (if t s < tEnd cfg then None else Some s)"
| "main_loop (Suc k) cfg s = (if t s < tEnd cfg then main_loop k cfg (step cfg s) else Some s)"

subsection \<open>The set-up before the loop\<close>

datatype error = ZeroDivisionError | ValueError

text \<open>\<^verbatim>\<open>np.linspace(a, b, n)\<close> for \<open>n \<ge> 0\<close>, and \<^verbatim>\<open>np.meshgrid(x, y)\<close>.\<close>

definition linspace :: "real \<Rightarrow> real \<Rightarrow> nat \<Rightarrow> real list" where
  "linspace a b n =
     (if n = 1 then [a] else map (\<lambda>i. a + real i * ((b - a) / real (n - 1))) [0..<n])"

definition meshgrid :: "real list \<Rightarrow> real list \<Rightarrow> field \<times> field" where
  "meshgrid xs ys = (replicate (length ys) xs, map (\<lambda>y. replicate (length xs) y) ys)"

text \<open>
  Lines 164 to 183. \<^verbatim>\<open>Lbox / N\<close> divides a Python float by a Python int and raises
  \<^verbatim>\<open>ZeroDivisionError\<close> for \<open>N = 0\<close>; \<^verbatim>\<open>np.linspace\<close> raises \<^verbatim>\<open>ValueError\<close> for a negative
  number of samples.
\<close>

definition init_state :: "config \<Rightarrow> error + sim_state" where
  "init_state cfg =
     (if N cfg = 0 then Inl ZeroDivisionError
      else let dx = dx_of cfg;
               vol = vol_of cfg
           in if N cfg < 0 then Inl ValueError
              else let xlin = linspace (0.5 * dx) (Lbox cfg - 0.5 * dx) (nat (N cfg));
                       (X, Y) = meshgrid xlin xlin;
                       rho = ew1 (\<lambda>x. 0 * x + 1) X;
                       vx = ew1 (\<lambda>y. 0.5 * sin (2 * pi * y)) Y;
                       vy = fmul (ew1 (\<lambda>x. 0.1 * sin (4 * pi * x)) X)
                                 (ew1 (\<lambda>y. cos (2 * pi * y) ^ 2) Y);
                       (m, px, py) = conserved_variables rho vx vy vol
                   in Inr \<lparr>Mass = m, Momx = px, Momy = py, t = 0, outputCount = 1,
                           frames = []\<rparr>)"

text \<open>
  \<^verbatim>\<open>main\<close>: the set-up, then the loop. \<open>None\<close> is a run that the fuel does not finish,
  \<open>Some (Inl e)\<close> a run that raises \<open>e\<close>, \<open>Some (Inr s)\<close> a run that returns, with the
  final loop state \<open>s\<close>.
\<close>

definition main :: "nat \<Rightarrow> config \<Rightarrow> (error + sim_state) option" where
  "main fuel cfg =
     (case init_state cfg of
        Inl e \<Rightarrow> Some (Inl e)
      | Inr s \<Rightarrow> map_option Inr (main_loop fuel cfg s))"

subsection \<open>Predicates and operations used to state the properties\<close>

text \<open>Every cell of the array is positive.\<close>

definition positive :: "field \<Rightarrow> bool" where
  "positive A = list_all (list_all (\<lambda>x. 0 < x)) A"

text \<open>The three conserved arrays of a loop state have the shape \<open>n \<times> m\<close>.\<close>

definition wf_state :: "nat \<Rightarrow> nat \<Rightarrow> sim_state \<Rightarrow> bool" where
  "wf_state n m s = (grid n m (Mass s) \<and> grid n m (Momx s) \<and> grid n m (Momy s))"

text \<open>The array of shape \<open>n \<times> m\<close> with the same value in every cell.\<close>

definition const_field :: "nat \<Rightarrow> nat \<Rightarrow> real \<Rightarrow> field" where
  "const_field n m c = replicate n (replicate m c)"

text \<open>
  The conserved arrays are those of the uniform state: density 1 and both velocities 0 in
  every cell.
\<close>

definition uniform_state :: "config \<Rightarrow> nat \<Rightarrow> nat \<Rightarrow> sim_state \<Rightarrow> bool" where
  "uniform_state cfg n m s =
     ((Mass s, Momx s, Momy s) =
        conserved_variables (const_field n m 1) (const_field n m 0) (const_field n m 0)
          (vol_of cfg))"

text \<open>The speed \<open>sqrt (vx\<^sup>2 + vy\<^sup>2)\<close> in every cell, and the maximum over all cells.\<close>

definition speed :: "field \<Rightarrow> field \<Rightarrow> field" where
  "speed vx vy = ew1 sqrt (fadd (ew1 (\<lambda>x. x ^ 2) vx) (ew1 (\<lambda>x. x ^ 2) vy))"

definition np_max :: "field \<Rightarrow> real" where
  "np_max A = Max (set (concat A))"

text \<open>
  The cyclic translation of a field by \<open>k\<close> cells along an axis, and of the three conserved
  arrays of a loop state.
\<close>

definition shift_field :: "int \<Rightarrow> nat \<Rightarrow> field \<Rightarrow> field" where
  "shift_field k axis A = np_roll A k axis"

definition shift_state :: "int \<Rightarrow> nat \<Rightarrow> sim_state \<Rightarrow> sim_state" where
  "shift_state k axis s =
     s\<lparr>Mass := shift_field k axis (Mass s),
       Momx := shift_field k axis (Momx s),
       Momy := shift_field k axis (Momy s)\<rparr>"

text \<open>
  The transpose of a field with \<open>m\<close> columns, and the loop state with the two axes
  exchanged: every array transposed, and the x-momentum and the y-momentum exchanged.
\<close>

definition transpose_field :: "nat \<Rightarrow> field \<Rightarrow> field" where
  "transpose_field m A = map (\<lambda>j. map (\<lambda>r. r ! j) A) [0..<m]"

definition swap_axes :: "nat \<Rightarrow> sim_state \<Rightarrow> sim_state" where
  "swap_axes m s =
     s\<lparr>Mass := transpose_field m (Mass s),
       Momx := transpose_field m (Momy s),
       Momy := transpose_field m (Momx s)\<rparr>"

subsection \<open>One turn as the specification describes it\<close>

text \<open>
  The definitions of this subsection are not taken from the source. They follow the words
  of the specification, sections 4.1 to 4.5, cell by cell, so that the turn of the source
  can be compared with them. A field is here a function from the two indices of a cell to
  its value; \<open>spec_next\<close> and \<open>spec_prev\<close> are the neighbours of an index, plus and minus
  one modulo the number of cells along the axis.
\<close>

type_synonym cells = "nat \<Rightarrow> nat \<Rightarrow> real"

definition spec_next :: "nat \<Rightarrow> nat \<Rightarrow> nat" where
  "spec_next n i = nat ((int i + 1) mod int n)"

definition spec_prev :: "nat \<Rightarrow> nat \<Rightarrow> nat" where
  "spec_prev n i = nat ((int i - 1) mod int n)"

text \<open>Section 4.1: density and velocities from the conserved state.\<close>

definition spec_rho :: "config \<Rightarrow> sim_state \<Rightarrow> cells" where
  "spec_rho cfg s i j = cell (Mass s) i j / vol_of cfg"

definition spec_vx :: "config \<Rightarrow> sim_state \<Rightarrow> cells" where
  "spec_vx cfg s i j = cell (Momx s) i j / (spec_rho cfg s i j * vol_of cfg)"

definition spec_vy :: "config \<Rightarrow> sim_state \<Rightarrow> cells" where
  "spec_vy cfg s i j = cell (Momy s) i j / (spec_rho cfg s i j * vol_of cfg)"

text \<open>Section 4.2: the periodic central differences along x (second index) and y (first index).\<close>

definition spec_grad_x :: "nat \<Rightarrow> real \<Rightarrow> cells \<Rightarrow> cells" where
  "spec_grad_x m dx f i j = (f i (spec_next m j) - f i (spec_prev m j)) / (2 * dx)"

definition spec_grad_y :: "nat \<Rightarrow> real \<Rightarrow> cells \<Rightarrow> cells" where
  "spec_grad_y n dx f i j = (f (spec_next n i) j - f (spec_prev n i) j) / (2 * dx)"

text \<open>Section 4.3, stage 1: the half step in time, from the gradients of the fields before it.\<close>

definition spec_predict_rho ::
  "real \<Rightarrow> cells \<Rightarrow> cells \<Rightarrow> cells \<Rightarrow> cells \<Rightarrow> cells \<Rightarrow> cells \<Rightarrow> cells \<Rightarrow> cells" where
  "spec_predict_rho dt rho vx vy rho_x rho_y vx_x vy_y i j =
     rho i j - 0.5 * dt *
       (vx i j * rho_x i j + rho i j * vx_x i j + vy i j * rho_y i j + rho i j * vy_y i j)"

definition spec_predict_vx ::
  "real \<Rightarrow> cells \<Rightarrow> cells \<Rightarrow> cells \<Rightarrow> cells \<Rightarrow> cells \<Rightarrow> cells \<Rightarrow> cells" where
  "spec_predict_vx dt rho vx vy rho_x vx_x vx_y i j =
     vx i j - 0.5 * dt * (vx i j * vx_x i j + vy i j * vx_y i j + (1 / rho i j) * rho_x i j)"

definition spec_predict_vy ::
  "real \<Rightarrow> cells \<Rightarrow> cells \<Rightarrow> cells \<Rightarrow> cells \<Rightarrow> cells \<Rightarrow> cells \<Rightarrow> cells" where
  "spec_predict_vy dt rho vx vy rho_y vy_x vy_y i j =
     vy i j - 0.5 * dt * (vx i j * vy_x i j + vy i j * vy_y i j + (1 / rho i j) * rho_y i j)"

text \<open>
  Section 4.3, stage 2: the face values, from the predicted field \<open>f\<close> and the gradient \<open>g\<close>
  of the field before the half step. The left value kept at a cell is the one computed
  for its next neighbour.
\<close>

definition spec_face_right :: "real \<Rightarrow> cells \<Rightarrow> cells \<Rightarrow> cells" where
  "spec_face_right dx f g i j = f i j + g i j * dx / 2"

definition spec_face_left_x :: "nat \<Rightarrow> real \<Rightarrow> cells \<Rightarrow> cells \<Rightarrow> cells" where
  "spec_face_left_x m dx f g i j = f i (spec_next m j) - g i (spec_next m j) * dx / 2"

definition spec_face_left_y :: "nat \<Rightarrow> real \<Rightarrow> cells \<Rightarrow> cells \<Rightarrow> cells" where
  "spec_face_left_y n dx f g i j = f (spec_next n i) j - g (spec_next n i) j * dx / 2"

text \<open>
  Section 4.4: the Rusanov flux between a left and a right state, with a normal velocity
  \<open>vn\<close> and a tangential velocity \<open>vt\<close>. The results are the fluxes of mass, of normal
  momentum and of tangential momentum.
\<close>

definition spec_riemann ::
  "real \<Rightarrow> real \<Rightarrow> real \<Rightarrow> real \<Rightarrow> real \<Rightarrow> real \<Rightarrow> real \<times> real \<times> real" where
  "spec_riemann rhoL rhoR vnL vnR vtL vtR =
     (let rho_star = 0.5 * (rhoL + rhoR);
          momn_star = 0.5 * (rhoL * vnL + rhoR * vnR);
          momt_star = 0.5 * (rhoL * vtL + rhoR * vtR);
          P_star = rho_star;
          C = max (1 + \<bar>vnL\<bar>) (1 + \<bar>vnR\<bar>);
          flux_mass = momn_star - C * 0.5 * (rhoL - rhoR);
          flux_momn = momn_star ^ 2 / rho_star + P_star - C * 0.5 * (rhoL * vnL - rhoR * vnR);
          flux_momt = momn_star * momt_star / rho_star - C * 0.5 * (rhoL * vtL - rhoR * vtR)
      in (flux_mass, flux_momn, flux_momt))"

text \<open>
  The six numbers that the Riemann solver is given at the interface kept at cell
  \<open>(i, j)\<close>: for the x direction the faces along x, with \<open>vx\<close> as normal and \<open>vy\<close> as
  tangential velocity; for the y direction the faces along y, with \<open>vy\<close> as normal and
  \<open>vx\<close> as tangential velocity.
\<close>

type_synonym riemann_input = "real \<times> real \<times> real \<times> real \<times> real \<times> real"

definition spec_call_x ::
  "config \<Rightarrow> nat \<Rightarrow> nat \<Rightarrow> real \<Rightarrow> sim_state \<Rightarrow> nat \<Rightarrow> nat \<Rightarrow> riemann_input" where
  "spec_call_x cfg n m dt s i j =
     (let dx = dx_of cfg;
          rho = spec_rho cfg s; vx = spec_vx cfg s; vy = spec_vy cfg s;
          rho_x = spec_grad_x m dx rho; rho_y = spec_grad_y n dx rho;
          vx_x = spec_grad_x m dx vx; vx_y = spec_grad_y n dx vx;
          vy_x = spec_grad_x m dx vy; vy_y = spec_grad_y n dx vy;
          rho' = spec_predict_rho dt rho vx vy rho_x rho_y vx_x vy_y;
          vx' = spec_predict_vx dt rho vx vy rho_x vx_x vx_y;
          vy' = spec_predict_vy dt rho vx vy rho_y vy_x vy_y
      in (spec_face_left_x m dx rho' rho_x i j, spec_face_right dx rho' rho_x i j,
          spec_face_left_x m dx vx' vx_x i j, spec_face_right dx vx' vx_x i j,
          spec_face_left_x m dx vy' vy_x i j, spec_face_right dx vy' vy_x i j))"

definition spec_call_y ::
  "config \<Rightarrow> nat \<Rightarrow> nat \<Rightarrow> real \<Rightarrow> sim_state \<Rightarrow> nat \<Rightarrow> nat \<Rightarrow> riemann_input" where
  "spec_call_y cfg n m dt s i j =
     (let dx = dx_of cfg;
          rho = spec_rho cfg s; vx = spec_vx cfg s; vy = spec_vy cfg s;
          rho_x = spec_grad_x m dx rho; rho_y = spec_grad_y n dx rho;
          vx_x = spec_grad_x m dx vx; vx_y = spec_grad_y n dx vx;
          vy_x = spec_grad_x m dx vy; vy_y = spec_grad_y n dx vy;
          rho' = spec_predict_rho dt rho vx vy rho_x rho_y vx_x vy_y;
          vx' = spec_predict_vx dt rho vx vy rho_x vx_x vx_y;
          vy' = spec_predict_vy dt rho vx vy rho_y vy_x vy_y
      in (spec_face_left_y n dx rho' rho_y i j, spec_face_right dx rho' rho_y i j,
          spec_face_left_y n dx vy' vy_y i j, spec_face_right dx vy' vy_y i j,
          spec_face_left_y n dx vx' vx_y i j, spec_face_right dx vx' vx_y i j))"

text \<open>
  The fluxes of mass, of x-momentum and of y-momentum through that interface. For the x
  direction the normal momentum is the x-momentum and the tangential one the y-momentum;
  for the y direction the normal momentum is the y-momentum and the tangential one the
  x-momentum.
\<close>

definition spec_flux_x ::
  "config \<Rightarrow> nat \<Rightarrow> nat \<Rightarrow> real \<Rightarrow> sim_state \<Rightarrow> nat \<Rightarrow> nat \<Rightarrow> real \<times> real \<times> real" where
  "spec_flux_x cfg n m dt s i j =
     (case spec_call_x cfg n m dt s i j of
        (rhoL, rhoR, vnL, vnR, vtL, vtR) \<Rightarrow>
          (case spec_riemann rhoL rhoR vnL vnR vtL vtR of
             (flux_mass, flux_momn, flux_momt) \<Rightarrow> (flux_mass, flux_momn, flux_momt)))"

definition spec_flux_y ::
  "config \<Rightarrow> nat \<Rightarrow> nat \<Rightarrow> real \<Rightarrow> sim_state \<Rightarrow> nat \<Rightarrow> nat \<Rightarrow> real \<times> real \<times> real" where
  "spec_flux_y cfg n m dt s i j =
     (case spec_call_y cfg n m dt s i j of
        (rhoL, rhoR, vnL, vnR, vtL, vtR) \<Rightarrow>
          (case spec_riemann rhoL rhoR vnL vnR vtL vtR of
             (flux_mass, flux_momn, flux_momt) \<Rightarrow> (flux_mass, flux_momt, flux_momn)))"

text \<open>Section 4.5: the update of a conserved field by its two flux fields.\<close>

definition spec_update ::
  "real \<Rightarrow> real \<Rightarrow> nat \<Rightarrow> nat \<Rightarrow> cells \<Rightarrow> cells \<Rightarrow> cells \<Rightarrow> cells" where
  "spec_update dt dx n m F flux_x flux_y i j =
     F i j - dt * dx * flux_x i j + dt * dx * flux_x i (spec_prev m j)
           - dt * dx * flux_y i j + dt * dx * flux_y (spec_prev n i) j"

subsection \<open>The calls of the Riemann solver\<close>

text \<open>
  One turn of the loop once more, now with the list of the calls of \<^verbatim>\<open>get_flux\<close> that it
  makes: each of the two call sites (lines 216 and 217) adds its arguments to the list.
  \<open>args_at\<close> is the value of the six arguments of a call in one cell.
\<close>

type_synonym riemann_args = "field \<times> field \<times> field \<times> field \<times> field \<times> field"

definition get_flux_traced ::
  "riemann_args \<Rightarrow> riemann_args list \<Rightarrow> (field \<times> field \<times> field) \<times> riemann_args list" where
  "get_flux_traced args calls =
     (case args of (rho_L, rho_R, vx_L, vx_R, vy_L, vy_R) \<Rightarrow>
        (get_flux rho_L rho_R vx_L vx_R vy_L vy_R, calls @ [args]))"

definition step_traced :: "config \<Rightarrow> sim_state \<Rightarrow> sim_state \<times> riemann_args list" where
  "step_traced cfg s =
     (let dx = dx_of cfg;
          calls = [];
          (dt, plotThisTurn,
           (rho_XL, rho_XR, rho_YL, rho_YR),
           (vx_XL, vx_XR, vx_YL, vx_YR),
           (vy_XL, vy_XR, vy_YL, vy_YR)) = face_states cfg s;
          ((flux_Mass_X, flux_Momx_X, flux_Momy_X), calls) =
             get_flux_traced (rho_XL, rho_XR, vx_XL, vx_XR, vy_XL, vy_XR) calls;
          ((flux_Mass_Y, flux_Momy_Y, flux_Momx_Y), calls) =
             get_flux_traced (rho_YL, rho_YR, vy_YL, vy_YR, vx_YL, vx_YR) calls
      in (\<lparr>Mass = apply_flux (Mass s) flux_Mass_X flux_Mass_Y dx dt,
           Momx = apply_flux (Momx s) flux_Momx_X flux_Momx_Y dx dt,
           Momy = apply_flux (Momy s) flux_Momy_X flux_Momy_Y dx dt,
           t = t s + dt,
           outputCount = (if plotThisTurn then outputCount s + 1 else outputCount s),
           frames = (if plotThisTurn then frames s @ [t s + dt] else frames s)\<rparr>, calls))"

definition args_at :: "riemann_args \<Rightarrow> nat \<Rightarrow> nat \<Rightarrow> riemann_input" where
  "args_at args i j =
     (case args of (rho_L, rho_R, vn_L, vn_R, vt_L, vt_R) \<Rightarrow>
        (cell rho_L i j, cell rho_R i j, cell vn_L i j, cell vn_R i j, cell vt_L i j,
         cell vt_R i j))"

text \<open>The array \<open>A\<close> has the shape \<open>n \<times> m\<close> and in its cells the values of \<open>a\<close>.\<close>

definition has_cells :: "nat \<Rightarrow> nat \<Rightarrow> field \<Rightarrow> cells \<Rightarrow> bool" where
  "has_cells n m A a = (grid n m A \<and> (\<forall>i<n. \<forall>j<m. cell A i j = a i j))"


subsection \<open>Concrete inputs\<close>

definition example_config :: config where
  "example_config = \<lparr>N = 2, courant_fac = 1 / 2, tEnd = 1, Nout = 4, Lbox = 1\<rparr>"

definition example_state :: sim_state where
  "example_state =
     \<lparr>Mass = [[1, 2], [3, 4]], Momx = [[0, 1], [1, 0]], Momy = [[1, 1], [2, 2]],
      t = 0, outputCount = 1, frames = []\<rparr>"

definition uniform_example :: sim_state where
  "uniform_example =
     \<lparr>Mass = [[1 / 4, 1 / 4], [1 / 4, 1 / 4]], Momx = [[0, 0], [0, 0]], Momy = [[0, 0], [0, 0]],
      t = 0, outputCount = 1, frames = []\<rparr>"

text \<open>A state with density 1 and opposite x-velocities in the two columns.\<close>

definition shear_state :: sim_state where
  "shear_state =
     \<lparr>Mass = [[1 / 4, 1 / 4], [1 / 4, 1 / 4]], Momx = [[1 / 4, - 1 / 4], [1 / 4, - 1 / 4]],
      Momy = [[0, 0], [0, 0]], t = 0, outputCount = 1, frames = []\<rparr>"

text \<open>
  A configuration with one cell and a quarter of the cell size as time step, four frames
  up to \<^verbatim>\<open>tEnd = 1\<close>; the initial fields are those of the source.
\<close>

definition snap_config :: config where
  "snap_config = \<lparr>N = 1, courant_fac = 1 / 4, tEnd = 1, Nout = 4, Lbox = 1\<rparr>"

section \<open>Arrays: shapes, cells, rolls\<close>

lemma grid_ew1 [simp]: "grid n m (ew1 g A) = grid n m A"
  by (simp add: grid_def ew1_def list_all_iff)

lemma grid_ew2 [simp]: "grid n m A \<Longrightarrow> grid n m B \<Longrightarrow> grid n m (ew2 g A B)"
  by (simp add: grid_def ew2_def list_all_length)

lemma length_roll [simp]: "length (roll s xs) = length xs"
  by (simp add: roll_def)

lemma set_roll [simp]: "set (roll s xs) = set xs"
  by (simp add: roll_def)

lemma grid_np_roll [simp]: "grid n m (np_roll A s ax) = grid n m A"
  by (simp add: grid_def np_roll_def list_all_iff)

lemma nth_roll:
  "i < length xs \<Longrightarrow> roll s xs ! i = xs ! nat ((int i - s) mod int (length xs))"
proof -
  assume i: "i < length xs"
  then have ne: "xs \<noteq> []" by auto
  let ?n = "int (length xs)"
  have pos: "0 < ?n" using ne by simp
  have "roll s xs = rotate (nat ((- s) mod ?n)) xs"
    using ne by (simp add: roll_def)
  then have "roll s xs ! i = xs ! ((nat ((- s) mod ?n) + i) mod length xs)"
    using i by (simp add: nth_rotate)
  also have "(nat ((- s) mod ?n) + i) mod length xs = nat ((int i - s) mod ?n)"
  proof -
    have "int ((nat ((- s) mod ?n) + i) mod length xs) = ((- s) mod ?n + int i) mod ?n"
      using pos by (simp add: zmod_int)
    also have "\<dots> = (int i - s) mod ?n"
      by (metis mod_add_left_eq uminus_add_conv_diff)
    finally show ?thesis by linarith
  qed
  finally show ?thesis .
qed

lemma cell_ew1:
  "grid n m A \<Longrightarrow> i < n \<Longrightarrow> j < m \<Longrightarrow> cell (ew1 g A) i j = g (cell A i j)"
  by (simp add: cell_def ew1_def grid_def list_all_length)

lemma cell_ew2:
  "grid n m A \<Longrightarrow> grid n m B \<Longrightarrow> i < n \<Longrightarrow> j < m \<Longrightarrow>
   cell (ew2 g A B) i j = g (cell A i j) (cell B i j)"
  by (simp add: cell_def ew2_def grid_def list_all_length)

lemma field_eqI:
  assumes "grid n m A" "grid n m B" "\<And>i j. i < n \<Longrightarrow> j < m \<Longrightarrow> cell A i j = cell B i j"
  shows "A = B"
proof (rule nth_equalityI)
  show "length A = length B" using assms by (simp add: grid_def)
next
  fix i assume "i < length A"
  then have i: "i < n" using assms by (simp add: grid_def)
  show "A ! i = B ! i"
  proof (rule nth_equalityI)
    show "length (A ! i) = length (B ! i)" using assms i by (simp add: grid_def list_all_length)
  next
    fix j assume "j < length (A ! i)"
    then have "j < m" using assms i by (simp add: grid_def list_all_length)
    then show "A ! i ! j = B ! i ! j" using assms(3)[OF i] by (simp add: cell_def)
  qed
qed

lemma cell_roll_aX:
  "grid n m A \<Longrightarrow> i < n \<Longrightarrow> j < m \<Longrightarrow>
   cell (np_roll A s aX) i j = cell A i (nat ((int j - s) mod int m))"
  by (simp add: cell_def np_roll_def aX_def grid_def list_all_length nth_roll)

lemma cell_roll_aY:
  "grid n m A \<Longrightarrow> i < n \<Longrightarrow> j < m \<Longrightarrow>
   cell (np_roll A s aY) i j = cell A (nat ((int i - s) mod int n)) j"
  by (auto simp add: cell_def np_roll_def aY_def grid_def list_all_length nth_roll)

lemma positive_cell: "positive A \<Longrightarrow> grid n m A \<Longrightarrow> i < n \<Longrightarrow> j < m \<Longrightarrow> 0 < cell A i j"
  by (simp add: positive_def grid_def cell_def list_all_length)

section \<open>Sums over the grid\<close>

lemma sum_list_map2_add:
  "length xs = length ys \<Longrightarrow> sum_list (map2 (+) xs ys) = sum_list xs + (sum_list ys :: real)"
  by (induction xs ys rule: list_induct2) simp_all

lemma total_fadd:
  "grid n m A \<Longrightarrow> grid n m B \<Longrightarrow> total (fadd A B) = total A + total B"
proof (induction A arbitrary: B n)
  case Nil
  then show ?case by (simp add: total_def ew2_def grid_def)
next
  case (Cons a A)
  then obtain b B' where B: "B = b # B'" by (cases B) (auto simp: grid_def)
  obtain n' where n: "n = Suc n'" using Cons.prems by (auto simp: grid_def)
  have "grid n' m A" "grid n' m B'" "length a = length b"
    using Cons.prems B n by (auto simp: grid_def)
  then show ?case
    using Cons.IH [of n' B'] B by (simp add: total_def ew2_def sum_list_map2_add)
qed

lemma total_scale: "total (ew1 (\<lambda>x. c * x) A) = c * total A"
  by (simp add: total_def ew1_def sum_list_const_mult comp_def)

lemma sum_list_rotate: "sum_list (rotate k xs) = (sum_list xs :: real)"
proof -
  let ?k = "k mod length xs"
  have "sum_list (rotate k xs) = sum_list (drop ?k xs) + sum_list (take ?k xs)"
    by (simp add: rotate_drop_take)
  also have "\<dots> = sum_list (take ?k xs @ drop ?k xs)"
    by (simp only: sum_list_append add.commute)
  finally show ?thesis by simp
qed

lemma sum_list_roll: "sum_list (roll s xs) = (sum_list xs :: real)"
  by (simp add: roll_def sum_list_rotate)

lemma total_np_roll: "total (np_roll A s ax) = total A"
proof -
  have "sum_list (map sum_list (roll s A)) = sum_list (map sum_list A)"
    by (simp add: roll_def sum_list_rotate flip: rotate_map)
  then show ?thesis
    by (simp add: total_def np_roll_def comp_def sum_list_roll)
qed

lemma total_apply_flux:
  assumes "grid n m F" "grid n m flux_F_X" "grid n m flux_F_Y"
  shows "total (apply_flux F flux_F_X flux_F_Y dx dt) = total F"
proof -
  have "total (apply_flux F flux_F_X flux_F_Y dx dt) =
          total F + - dt * dx * total flux_F_X + dt * dx * total flux_F_X
            + - dt * dx * total flux_F_Y + dt * dx * total flux_F_Y"
    unfolding apply_flux_def Let_def
    by (simp only: total_fadd [where n = n and m = m] total_scale total_np_roll
        grid_ew1 grid_ew2 grid_np_roll assms)
  then show ?thesis by simp
qed

section \<open>Shapes through one turn of the loop\<close>

lemma grid_primitive_variables:
  "primitive_variables M Px Py V = (rho, vx, vy) \<Longrightarrow> grid n m M \<Longrightarrow> grid n m Px \<Longrightarrow> grid n m Py
   \<Longrightarrow> grid n m rho \<and> grid n m vx \<and> grid n m vy"
  by (auto simp: primitive_variables_def Let_def)

lemma grid_grad:
  "grad f dx = (f_dx, f_dy) \<Longrightarrow> grid n m f \<Longrightarrow> grid n m f_dx \<and> grid n m f_dy"
  by (auto simp: grad_def Let_def)

lemma grid_half_step:
  "half_step dt rho vx vy rho_dx rho_dy vx_dx vx_dy vy_dx vy_dy = (rho_prime, vx_prime, vy_prime)
   \<Longrightarrow> grid n m rho \<Longrightarrow> grid n m vx \<Longrightarrow> grid n m vy
   \<Longrightarrow> grid n m rho_dx \<Longrightarrow> grid n m rho_dy \<Longrightarrow> grid n m vx_dx \<Longrightarrow> grid n m vx_dy
   \<Longrightarrow> grid n m vy_dx \<Longrightarrow> grid n m vy_dy
   \<Longrightarrow> grid n m rho_prime \<and> grid n m vx_prime \<and> grid n m vy_prime"
  by (auto simp: half_step_def Let_def)

lemma grid_extrapolate:
  "extrapolate f f_dx f_dy dx = (f_XL, f_XR, f_YL, f_YR)
   \<Longrightarrow> grid n m f \<Longrightarrow> grid n m f_dx \<Longrightarrow> grid n m f_dy
   \<Longrightarrow> grid n m f_XL \<and> grid n m f_XR \<and> grid n m f_YL \<and> grid n m f_YR"
  by (auto simp: extrapolate_def Let_def)

lemma grid_get_flux:
  "get_flux rho_L rho_R vx_L vx_R vy_L vy_R = (flux_Mass, flux_Momx, flux_Momy)
   \<Longrightarrow> grid n m rho_L \<Longrightarrow> grid n m rho_R \<Longrightarrow> grid n m vx_L \<Longrightarrow> grid n m vx_R
   \<Longrightarrow> grid n m vy_L \<Longrightarrow> grid n m vy_R
   \<Longrightarrow> grid n m flux_Mass \<and> grid n m flux_Momx \<and> grid n m flux_Momy"
  by (auto simp: get_flux_def Let_def)

lemma grid_apply_flux:
  "grid n m F \<Longrightarrow> grid n m flux_F_X \<Longrightarrow> grid n m flux_F_Y
   \<Longrightarrow> grid n m (apply_flux F flux_F_X flux_F_Y dx dt)"
  by (simp add: apply_flux_def Let_def)

text \<open>The face states of a well-shaped state, named, with their shapes.\<close>

lemma face_states_cases:
  assumes "wf_state n m s"
  obtains dt plotThisTurn rho_XL rho_XR rho_YL rho_YR vx_XL vx_XR vx_YL vx_YR
    vy_XL vy_XR vy_YL vy_YR
  where "face_states cfg s =
           (dt, plotThisTurn, (rho_XL, rho_XR, rho_YL, rho_YR), (vx_XL, vx_XR, vx_YL, vx_YR),
            (vy_XL, vy_XR, vy_YL, vy_YR))"
    and "grid n m rho_XL" "grid n m rho_XR" "grid n m rho_YL" "grid n m rho_YR"
    and "grid n m vx_XL" "grid n m vx_XR" "grid n m vx_YL" "grid n m vx_YR"
    and "grid n m vy_XL" "grid n m vy_XR" "grid n m vy_YL" "grid n m vy_YR"
proof -
  obtain rho vx vy where p: "primitive_variables (Mass s) (Momx s) (Momy s) (vol_of cfg) = (rho, vx, vy)"
    by (metis prod_cases3)
  obtain dt plotThisTurn where d: "get_dt cfg s vx vy = (dt, plotThisTurn)"
    by fastforce
  obtain rho_dx rho_dy where g1: "grad rho (dx_of cfg) = (rho_dx, rho_dy)" by fastforce
  obtain vx_dx vx_dy where g2: "grad vx (dx_of cfg) = (vx_dx, vx_dy)" by fastforce
  obtain vy_dx vy_dy where g3: "grad vy (dx_of cfg) = (vy_dx, vy_dy)" by fastforce
  obtain rho_prime vx_prime vy_prime where
    h: "half_step dt rho vx vy rho_dx rho_dy vx_dx vx_dy vy_dx vy_dy = (rho_prime, vx_prime, vy_prime)"
    by (metis prod_cases3)
  obtain rho_XL rho_XR rho_YL rho_YR where
    e1: "extrapolate rho_prime rho_dx rho_dy (dx_of cfg) = (rho_XL, rho_XR, rho_YL, rho_YR)"
    by (metis prod_cases4)
  obtain vx_XL vx_XR vx_YL vx_YR where
    e2: "extrapolate vx_prime vx_dx vx_dy (dx_of cfg) = (vx_XL, vx_XR, vx_YL, vx_YR)"
    by (metis prod_cases4)
  obtain vy_XL vy_XR vy_YL vy_YR where
    e3: "extrapolate vy_prime vy_dx vy_dy (dx_of cfg) = (vy_XL, vy_XR, vy_YL, vy_YR)"
    by (metis prod_cases4)
  have gp: "grid n m rho" "grid n m vx" "grid n m vy"
    using grid_primitive_variables [OF p, of n m] assms by (simp_all add: wf_state_def)
  have gg: "grid n m rho_dx" "grid n m rho_dy" "grid n m vx_dx" "grid n m vx_dy"
    "grid n m vy_dx" "grid n m vy_dy"
    using grid_grad [OF g1, of n m] grid_grad [OF g2, of n m] grid_grad [OF g3, of n m] gp
    by simp_all
  have gh: "grid n m rho_prime" "grid n m vx_prime" "grid n m vy_prime"
    using grid_half_step [OF h, of n m] gp gg by simp_all
  have fs: "face_states cfg s =
           (dt, plotThisTurn, (rho_XL, rho_XR, rho_YL, rho_YR), (vx_XL, vx_XR, vx_YL, vx_YR),
            (vy_XL, vy_XR, vy_YL, vy_YR))"
    by (simp add: face_states_def Let_def p d g1 g2 g3 h e1 e2 e3)
  show thesis
    using that [OF fs] grid_extrapolate [OF e1, of n m] grid_extrapolate [OF e2, of n m]
      grid_extrapolate [OF e3, of n m] gg gh
    by simp
qed

lemma step_cases:
  assumes "wf_state n m s"
  obtains dt plotThisTurn fMX fMY fPxX fPxY fPyX fPyY
  where "step cfg s =
           \<lparr>Mass = apply_flux (Mass s) fMX fMY (dx_of cfg) dt,
            Momx = apply_flux (Momx s) fPxX fPxY (dx_of cfg) dt,
            Momy = apply_flux (Momy s) fPyX fPyY (dx_of cfg) dt,
            t = t s + dt,
            outputCount = (if plotThisTurn then outputCount s + 1 else outputCount s),
            frames = (if plotThisTurn then frames s @ [t s + dt] else frames s)\<rparr>"
    and "grid n m fMX" "grid n m fMY" "grid n m fPxX" "grid n m fPxY"
    and "grid n m fPyX" "grid n m fPyY"
proof -
  obtain dt plotThisTurn rho_XL rho_XR rho_YL rho_YR vx_XL vx_XR vx_YL vx_YR
    vy_XL vy_XR vy_YL vy_YR
  where fs: "face_states cfg s =
           (dt, plotThisTurn, (rho_XL, rho_XR, rho_YL, rho_YR), (vx_XL, vx_XR, vx_YL, vx_YR),
            (vy_XL, vy_XR, vy_YL, vy_YR))"
    and g: "grid n m rho_XL" "grid n m rho_XR" "grid n m rho_YL" "grid n m rho_YR"
      "grid n m vx_XL" "grid n m vx_XR" "grid n m vx_YL" "grid n m vx_YR"
      "grid n m vy_XL" "grid n m vy_XR" "grid n m vy_YL" "grid n m vy_YR"
    using face_states_cases [OF assms, of cfg] by metis
  obtain fMX fPxX fPyX where
    x: "get_flux rho_XL rho_XR vx_XL vx_XR vy_XL vy_XR = (fMX, fPxX, fPyX)"
    by (metis prod_cases3)
  obtain fMY fPyY fPxY where
    y: "get_flux rho_YL rho_YR vy_YL vy_YR vx_YL vx_YR = (fMY, fPyY, fPxY)"
    by (metis prod_cases3)
  have st: "step cfg s =
           \<lparr>Mass = apply_flux (Mass s) fMX fMY (dx_of cfg) dt,
            Momx = apply_flux (Momx s) fPxX fPxY (dx_of cfg) dt,
            Momy = apply_flux (Momy s) fPyX fPyY (dx_of cfg) dt,
            t = t s + dt,
            outputCount = (if plotThisTurn then outputCount s + 1 else outputCount s),
            frames = (if plotThisTurn then frames s @ [t s + dt] else frames s)\<rparr>"
    by (simp add: step_def Let_def fs x y)
  show thesis
    using that [OF st] grid_get_flux [OF x, of n m] grid_get_flux [OF y, of n m] g by simp
qed

lemma wf_state_step: "wf_state n m s \<Longrightarrow> wf_state n m (step cfg s)"
proof -
  assume wf: "wf_state n m s"
  from step_cases [OF wf, of cfg] obtain dt plotThisTurn fMX fMY fPxX fPxY fPyX fPyY
  where st: "step cfg s =
           \<lparr>Mass = apply_flux (Mass s) fMX fMY (dx_of cfg) dt,
            Momx = apply_flux (Momx s) fPxX fPxY (dx_of cfg) dt,
            Momy = apply_flux (Momy s) fPyX fPyY (dx_of cfg) dt,
            t = t s + dt,
            outputCount = (if plotThisTurn then outputCount s + 1 else outputCount s),
            frames = (if plotThisTurn then frames s @ [t s + dt] else frames s)\<rparr>"
    and g: "grid n m fMX" "grid n m fMY" "grid n m fPxX" "grid n m fPxY"
      "grid n m fPyX" "grid n m fPyY"
    by metis
  show ?thesis
    using wf g by (simp add: st wf_state_def grid_apply_flux)
qed

section \<open>The states of a run\<close>

text \<open>The state that the loop returns is the state after some number of turns.\<close>

lemma main_loop_funpow:
  "main_loop fuel cfg s = Some s' \<Longrightarrow> \<exists>k\<le>fuel. s' = (step cfg ^^ k) s"
proof (induction fuel arbitrary: s)
  case 0
  then show ?case by (simp split: if_splits)
next
  case (Suc fuel)
  show ?case
  proof (cases "t s < tEnd cfg")
    case True
    then have "main_loop fuel cfg (step cfg s) = Some s'" using Suc.prems by simp
    then obtain k where "k \<le> fuel" "s' = (step cfg ^^ k) (step cfg s)"
      using Suc.IH by blast
    then have "Suc k \<le> Suc fuel" "s' = (step cfg ^^ Suc k) s"
      by (simp_all add: funpow_swap1)
    then show ?thesis by blast
  next
    case False
    then have "s' = (step cfg ^^ 0) s" using Suc.prems by simp
    then show ?thesis by blast
  qed
qed

lemma grid_conserved_variables:
  "conserved_variables rho vx vy V = (m, px, py) \<Longrightarrow> grid n k rho \<Longrightarrow> grid n k vx \<Longrightarrow> grid n k vy
   \<Longrightarrow> grid n k m \<and> grid n k px \<and> grid n k py"
  by (auto simp: conserved_variables_def Let_def)

lemma length_linspace [simp]: "length (linspace a b n) = n"
  by (simp add: linspace_def)

lemma grid_meshgrid:
  "meshgrid xs ys = (X, Y) \<Longrightarrow> grid (length ys) (length xs) X \<and> grid (length ys) (length xs) Y"
  by (auto simp: meshgrid_def grid_def list_all_iff)

text \<open>The state built by the set-up has three arrays of shape \<open>N \<times> N\<close>, and \<open>N > 0\<close>.\<close>

lemma init_state_wf:
  assumes "init_state cfg = Inr s"
  shows "0 < N cfg \<and> wf_state (nat (N cfg)) (nat (N cfg)) s"
proof -
  have n: "0 < N cfg" using assms by (auto simp: init_state_def Let_def split: if_splits)
  let ?n = "nat (N cfg)"
  let ?xlin = "linspace (0.5 * dx_of cfg) (Lbox cfg - 0.5 * dx_of cfg) ?n"
  obtain X Y where xy: "meshgrid ?xlin ?xlin = (X, Y)" by fastforce
  have g: "grid ?n ?n X" "grid ?n ?n Y" using grid_meshgrid [OF xy] by simp_all
  let ?rho = "ew1 (\<lambda>x. 0 * x + 1) X"
  let ?vx = "ew1 (\<lambda>y. 0.5 * sin (2 * pi * y)) Y"
  let ?vy = "fmul (ew1 (\<lambda>x. 0.1 * sin (4 * pi * x)) X) (ew1 (\<lambda>y. cos (2 * pi * y) ^ 2) Y)"
  obtain m px py where c: "conserved_variables ?rho ?vx ?vy (vol_of cfg) = (m, px, py)"
    by (metis prod_cases3)
  have "grid ?n ?n m \<and> grid ?n ?n px \<and> grid ?n ?n py"
    using grid_conserved_variables [OF c, of ?n ?n] g by simp
  moreover have "s = \<lparr>Mass = m, Momx = px, Momy = py, t = 0, outputCount = 1, frames = []\<rparr>"
    using assms n xy c by (simp add: init_state_def Let_def)
  ultimately show ?thesis using n by (simp add: wf_state_def)
qed

lemma wf_state_funpow: "wf_state n m s \<Longrightarrow> wf_state n m ((step cfg ^^ k) s)"
  by (induction k) (simp_all add: wf_state_step)

lemma wf_state_main_loop:
  "wf_state n m s \<Longrightarrow> main_loop fuel cfg s = Some s' \<Longrightarrow> wf_state n m s'"
  using main_loop_funpow [of fuel cfg s s'] wf_state_funpow [of n m s] by auto

section \<open>Conversion between primitive and conserved variables\<close>

text \<open>
  Claim C5. For fields \<open>rho\<close>, \<open>vx\<close>, \<open>vy\<close> of one shape, with \<open>rho\<close> positive in every cell,
  and a cell volume \<open>V > 0\<close>, converting to conserved variables and back gives the three
  fields again. (Over the reals the equality is exact.)
\<close>

theorem round_trip:
  assumes "grid n m rho" "grid n m vx" "grid n m vy" "positive rho" "0 < V"
  shows "(case conserved_variables rho vx vy V of
            (m, px, py) \<Rightarrow> primitive_variables m px py V) = (rho, vx, vy)"
proof -
  let ?m = "ew1 (\<lambda>r. r * V) rho"
  let ?rho = "ew1 (\<lambda>x. x / V) ?m"
  have rho: "?rho = rho"
    using assms
    by (intro field_eqI [where n = n and m = m]) (simp_all add: cell_ew1 [where n = n and m = m])
  have v: "ew1 (\<lambda>x. x / V) (fdiv (fmul ?m v) rho) = v" if "grid n m v" for v
  proof (rule field_eqI [where n = n and m = m])
    fix i j assume ij: "i < n" "j < m"
    have "0 < cell rho i j" using assms ij by (simp add: positive_cell)
    then show "cell (ew1 (\<lambda>x. x / V) (fdiv (fmul ?m v) rho)) i j = cell v i j"
      using assms that ij
      by (simp add: cell_ew1 [where n = n and m = m] cell_ew2 [where n = n and m = m])
  qed (use assms that in simp_all)
  show ?thesis
    using v [OF assms(2)] v [OF assms(3)]
    by (simp add: conserved_variables_def primitive_variables_def Let_def rho)
qed

theorem round_trip_witness:
  "grid 1 2 [[1, 2]] \<and> positive [[1, 2]] \<and>
   (case conserved_variables [[1, 2]] [[3, 4]] [[5, 6]] (1 / 4) of
      (m, px, py) \<Rightarrow> primitive_variables m px py (1 / 4)) = ([[1, 2]], [[3, 4]], [[5, 6]])"
  using round_trip [of 1 2 "[[1, 2]]" "[[3, 4]]" "[[5, 6]]" "1 / 4"]
  by (simp add: grid_def positive_def)

section \<open>The gradient\<close>

text \<open>
  Claim C9. In every cell \<open>(i, j)\<close> of a field of shape \<open>n \<times> m\<close> (in the program,
  \<open>N \<times> N\<close>), the first result of \<open>grad\<close> is the periodic central difference along the
  x axis (the index inside a row), and the second the one along the y axis (the index of
  the row): the value at the next index modulo the length minus the value at the previous
  index modulo the length, over \<open>2 * dx\<close>. Each axis is computed on its own.
\<close>

theorem grad_central_difference:
  assumes "grid n m f" "i < n" "j < m"
  shows "cell (fst (grad f dx)) i j =
           (cell f i (nat ((int j + 1) mod int m)) - cell f i (nat ((int j - 1) mod int m)))
             / (2 * dx)
         \<and> cell (snd (grad f dx)) i j =
           (cell f (nat ((int i + 1) mod int n)) j - cell f (nat ((int i - 1) mod int n)) j)
             / (2 * dx)"
  using assms
  by (simp add: grad_def Let_def cell_ew1 [where n = n and m = m]
      cell_ew2 [where n = n and m = m] cell_roll_aX [where n = n and m = m]
      cell_roll_aY [where n = n and m = m] R_def L_def)

theorem grad_central_difference_witness:
  "grid 3 3 [[1, 2, 4], [8, 16, 32], [64, 128, 256]] \<and>
   cell (fst (grad [[1, 2, 4], [8, 16, 32], [64, 128, 256]] 1)) 0 0 = (2 - 4) / (2 * 1) \<and>
   cell (snd (grad [[1, 2, 4], [8, 16, 32], [64, 128, 256]] 1)) 0 0 = (8 - 64) / (2 * 1)"
  using grad_central_difference [of 3 3 "[[1, 2, 4], [8, 16, 32], [64, 128, 256]]" 0 0 1]
  by (simp add: grid_def cell_def)

section \<open>The Riemann solver\<close>

text \<open>
  Claim C6. For left and right face states of one shape, \<open>get_flux\<close> returns in every cell
  the Rusanov flux: with the star states \<open>rho* = 0.5 (rhoL + rhoR)\<close>,
  \<open>momn* = 0.5 (rhoL vnL + rhoR vnR)\<close>, \<open>momt* = 0.5 (rhoL vtL + rhoR vtR)\<close>, the pressure
  \<open>P* = rho*\<close> and the signal speed \<open>C = max (1 + |vnL|) (1 + |vnR|)\<close>, the three results
  are \<open>momn* - C 0.5 (rhoL - rhoR)\<close>, \<open>momn*\<^sup>2 / rho* + P* - C 0.5 (rhoL vnL - rhoR vnR)\<close>
  and \<open>momn* momt* / rho* - C 0.5 (rhoL vtL - rhoR vtR)\<close>.
\<close>

theorem get_flux_rusanov:
  assumes "grid n m rho_L" "grid n m rho_R" "grid n m vn_L" "grid n m vn_R"
    "grid n m vt_L" "grid n m vt_R" "i < n" "j < m"
  shows "case get_flux rho_L rho_R vn_L vn_R vt_L vt_R of (flux_mass, flux_momn, flux_momt) \<Rightarrow>
    (let rhoL = cell rho_L i j; rhoR = cell rho_R i j;
         vnL = cell vn_L i j; vnR = cell vn_R i j;
         vtL = cell vt_L i j; vtR = cell vt_R i j;
         rho_star = 0.5 * (rhoL + rhoR);
         momn_star = 0.5 * (rhoL * vnL + rhoR * vnR);
         momt_star = 0.5 * (rhoL * vtL + rhoR * vtR);
         P_star = rho_star;
         C = max (1 + \<bar>vnL\<bar>) (1 + \<bar>vnR\<bar>)
     in cell flux_mass i j = momn_star - C * 0.5 * (rhoL - rhoR)
      \<and> cell flux_momn i j =
          momn_star ^ 2 / rho_star + P_star - C * 0.5 * (rhoL * vnL - rhoR * vnR)
      \<and> cell flux_momt i j =
          momn_star * momt_star / rho_star - C * 0.5 * (rhoL * vtL - rhoR * vtR))"
  by (simp only: get_flux_def Let_def prod.case cell_ew1 [where n = n and m = m]
      cell_ew2 [where n = n and m = m] grid_ew1 grid_ew2 assms simp_thms)

theorem get_flux_rusanov_witness:
  "grid 1 1 [[2]] \<and>
   (case get_flux [[2]] [[4]] [[1]] [[- 3]] [[5]] [[7]] of (flux_mass, flux_momn, flux_momt) \<Rightarrow>
      cell flux_mass 0 0 = - 1 \<and> cell flux_momn 0 0 = - 50 / 3 \<and> cell flux_momt 0 0 = 13 / 3)"
  using get_flux_rusanov [of 1 1 "[[2]]" "[[4]]" "[[1]]" "[[- 3]]" "[[5]]" "[[7]]" 0 0]
  by (simp add: grid_def cell_def Let_def)

section \<open>Conservation\<close>

text \<open>
  Claim C1. For every conserved field \<open>F\<close> and every pair of flux arrays of its shape, the
  update \<open>apply_flux\<close> leaves the sum over all cells unchanged, because along each axis the
  contributions \<open>- dt dx flux\<close> and \<open>dt dx roll(flux, 1, axis)\<close> sum to zero over the grid.
  Hence one turn of the loop leaves the total mass, the total x-momentum and the total
  y-momentum unchanged.
\<close>

theorem conservation:
  assumes "grid n m F" "grid n m flux_X" "grid n m flux_Y" "wf_state n m s"
  shows "total (ew1 (\<lambda>x. - dt * dx * x) flux_X)
           + total (ew1 (\<lambda>x. dt * dx * x) (np_roll flux_X L aX)) = 0
       \<and> total (ew1 (\<lambda>x. - dt * dx * x) flux_Y)
           + total (ew1 (\<lambda>x. dt * dx * x) (np_roll flux_Y L aY)) = 0
       \<and> total (apply_flux F flux_X flux_Y dx dt) = total F
       \<and> total (Mass (step cfg s)) = total (Mass s)
       \<and> total (Momx (step cfg s)) = total (Momx s)
       \<and> total (Momy (step cfg s)) = total (Momy s)"
proof -
  from step_cases [OF assms(4), of cfg] obtain dt' plotThisTurn fMX fMY fPxX fPxY fPyX fPyY
  where st: "step cfg s =
           \<lparr>Mass = apply_flux (Mass s) fMX fMY (dx_of cfg) dt',
            Momx = apply_flux (Momx s) fPxX fPxY (dx_of cfg) dt',
            Momy = apply_flux (Momy s) fPyX fPyY (dx_of cfg) dt',
            t = t s + dt',
            outputCount = (if plotThisTurn then outputCount s + 1 else outputCount s),
            frames = (if plotThisTurn then frames s @ [t s + dt'] else frames s)\<rparr>"
    and g: "grid n m fMX" "grid n m fMY" "grid n m fPxX" "grid n m fPxY"
      "grid n m fPyX" "grid n m fPyY"
    by metis
  have tele: "total (ew1 (\<lambda>x. - dt * dx * x) A) + total (ew1 (\<lambda>x. dt * dx * x) (np_roll A k ax)) = 0"
    for A k ax
    by (simp only: total_scale total_np_roll)
  have "total (Mass (step cfg s)) = total (Mass s)"
    "total (Momx (step cfg s)) = total (Momx s)"
    "total (Momy (step cfg s)) = total (Momy s)"
    using assms(4) g by (simp_all add: st wf_state_def total_apply_flux [where n = n and m = m])
  then show ?thesis
    using tele total_apply_flux [OF assms(1,2,3)] by simp
qed

theorem conservation_witness:
  "wf_state 2 2 example_state
   \<and> total (apply_flux [[1, 2], [3, 4]] [[1, 0], [0, 5]] [[2, 2], [0, 7]] (1 / 2) (1 / 8)) = 10
   \<and> total (Mass (step example_config example_state)) = 10
   \<and> total (Momx (step example_config example_state)) = 2
   \<and> total (Momy (step example_config example_state)) = 6"
  using conservation [of 2 2 "[[1, 2], [3, 4]]" "[[1, 0], [0, 5]]" "[[2, 2], [0, 7]]"
      example_state "1 / 8" "1 / 2" example_config]
  by (simp add: wf_state_def grid_def example_state_def total_def)

section \<open>The uniform state\<close>

lemma ew1_const [simp]: "ew1 g (const_field n m c) = const_field n m (g c)"
  by (simp add: ew1_def const_field_def)

lemma ew2_const [simp]:
  "ew2 g (const_field n m a) (const_field n m b) = const_field n m (g a b)"
  by (simp add: ew2_def const_field_def)

lemma rotate_replicate: "rotate k (replicate n x) = replicate n x"
  by (induction k) simp_all

lemma roll_replicate [simp]: "roll s (replicate n x) = replicate n x"
  by (simp add: roll_def rotate_replicate)

lemma np_roll_const [simp]: "np_roll (const_field n m c) s ax = const_field n m c"
  by (simp add: np_roll_def const_field_def)

lemma np_min_const [simp]: "0 < n \<Longrightarrow> 0 < m \<Longrightarrow> np_min (const_field n m c) = c"
proof -
  assume "0 < n" "0 < m"
  then have "set (concat (replicate n (replicate m c))) = {c}" by auto
  then show ?thesis by (simp add: np_min_def const_field_def)
qed

lemma grid_const [simp]: "grid n m (const_field n m c)"
  by (simp add: grid_def const_field_def list_all_iff)

lemma uniform_fields:
  "uniform_state cfg n m s \<longleftrightarrow>
     Mass s = const_field n m (vol_of cfg) \<and> Momx s = const_field n m 0 \<and> Momy s = const_field n m 0"
  by (auto simp add: uniform_state_def conserved_variables_def Let_def)

lemma face_states_uniform:
  assumes "dx_of cfg \<noteq> 0" "uniform_state cfg n m s"
  shows "face_states cfg s =
    (fst (get_dt cfg s (const_field n m 0) (const_field n m 0)),
     snd (get_dt cfg s (const_field n m 0) (const_field n m 0)),
     (const_field n m 1, const_field n m 1, const_field n m 1, const_field n m 1),
     (const_field n m 0, const_field n m 0, const_field n m 0, const_field n m 0),
     (const_field n m 0, const_field n m 0, const_field n m 0, const_field n m 0))"
proof -
  have v: "vol_of cfg \<noteq> 0" using assms(1) by (simp add: vol_of_def)
  have p: "primitive_variables (Mass s) (Momx s) (Momy s) (vol_of cfg) =
             (const_field n m 1, const_field n m 0, const_field n m 0)"
    using assms(2) v by (simp add: uniform_fields primitive_variables_def Let_def)
  show ?thesis
    by (simp add: face_states_def Let_def p split_def grad_def half_step_def extrapolate_def)
qed

lemma get_flux_uniform:
  "get_flux (const_field n m 1) (const_field n m 1) (const_field n m 0) (const_field n m 0)
     (const_field n m 0) (const_field n m 0) =
   (const_field n m 0, const_field n m 1, const_field n m 0)"
  by (simp add: get_flux_def Let_def)

lemma step_uniform:
  assumes "dx_of cfg \<noteq> 0" "uniform_state cfg n m s"
  shows "step cfg s =
     (let (dt, plotThisTurn) = get_dt cfg s (const_field n m 0) (const_field n m 0)
      in s\<lparr>t := t s + dt,
           outputCount := (if plotThisTurn then outputCount s + 1 else outputCount s),
           frames := (if plotThisTurn then frames s @ [t s + dt] else frames s)\<rparr>)"
  using assms(2)
  by (simp add: step_def Let_def face_states_uniform [OF assms] get_flux_uniform split_def
      apply_flux_def uniform_fields)

lemma uniform_state_step:
  assumes "dx_of cfg \<noteq> 0" "uniform_state cfg n m s"
  shows "uniform_state cfg n m (step cfg s)"
  using assms(2) by (simp add: step_uniform [OF assms] Let_def split_def uniform_fields)

lemma uniform_state_funpow:
  assumes "dx_of cfg \<noteq> 0" "uniform_state cfg n m s"
  shows "uniform_state cfg n m ((step cfg ^^ k) s)"
  by (induction k) (simp_all add: assms uniform_state_step)

lemma uniform_main_loop:
  assumes "dx_of cfg \<noteq> 0" "uniform_state cfg n m s" "main_loop fuel cfg s = Some s'"
  shows "Mass s' = Mass s \<and> Momx s' = Momx s \<and> Momy s' = Momy s"
proof -
  obtain k where "s' = (step cfg ^^ k) s" using main_loop_funpow [OF assms(3)] by blast
  then show ?thesis
    using uniform_state_funpow [OF assms(1,2), of k] assms(2) by (simp add: uniform_fields)
qed


text \<open>
  Claim C2. Started in the uniform state (density 1, both velocities 0 in every cell), the
  conserved arrays are the same after any number of turns of the loop. The cell size must
  not be zero, so that the density \<open>Mass / vol\<close> is defined.
\<close>

theorem uniform_fixed_point:
  assumes "dx_of cfg \<noteq> 0" "uniform_state cfg n m s"
  shows "Mass ((step cfg ^^ k) s) = Mass s
       \<and> Momx ((step cfg ^^ k) s) = Momx s
       \<and> Momy ((step cfg ^^ k) s) = Momy s"
  using uniform_state_funpow [OF assms, of k] assms(2) by (simp add: uniform_fields)

theorem uniform_fixed_point_witness:
  "dx_of example_config \<noteq> 0 \<and> uniform_state example_config 2 2 uniform_example
   \<and> Mass ((step example_config ^^ 5) uniform_example) = [[1 / 4, 1 / 4], [1 / 4, 1 / 4]]
   \<and> Momx ((step example_config ^^ 5) uniform_example) = [[0, 0], [0, 0]]
   \<and> Momy ((step example_config ^^ 5) uniform_example) = [[0, 0], [0, 0]]"
proof -
  have d: "dx_of example_config \<noteq> 0"
    by (simp add: dx_of_def example_config_def)
  have u: "uniform_state example_config 2 2 uniform_example"
    by (simp add: uniform_fields vol_of_def dx_of_def example_config_def uniform_example_def
        const_field_def numeral_2_eq_2 power2_eq_square)
  show ?thesis
    using uniform_fixed_point [OF d u, of 5] d u by (simp add: uniform_example_def)
qed

section \<open>The time step\<close>

lemma set_concat_ew1: "set (concat (ew1 g A)) = g ` set (concat A)"
  by (simp add: ew1_def map_concat [symmetric] del: set_concat)

lemma set_concat_ew2:
  "x \<in> set (concat (ew2 g A B)) \<Longrightarrow> \<exists>a b. x = g a b"
  by (auto simp: ew2_def dest!: set_zip_leftD)

lemma ew2_ew1: "ew2 g (ew1 f A) (ew1 h B) = ew2 (\<lambda>a b. g (f a) (h b)) A B"
  by (simp add: ew2_def ew1_def zip_map_map map_zip_map map_zip_map2 split_def)

lemma speed_nonneg: "x \<in> set (concat (speed vx vy)) \<Longrightarrow> 0 \<le> x"
proof -
  assume "x \<in> set (concat (speed vx vy))"
  then obtain y where y: "y \<in> set (concat (fadd (ew1 (\<lambda>x. x ^ 2) vx) (ew1 (\<lambda>x. x ^ 2) vy)))"
    and x: "x = sqrt y"
    unfolding speed_def set_concat_ew1 by blast
  have "y \<in> set (concat (ew2 (\<lambda>a b. a ^ 2 + b ^ 2) vx vy))"
    using y by (simp add: ew2_ew1 del: set_concat)
  then obtain a b where "y = a ^ 2 + b ^ 2"
    using set_concat_ew2 by blast
  then show ?thesis using x by simp
qed

lemma grid_nonempty: "grid n m A \<Longrightarrow> 0 < n \<Longrightarrow> 0 < m \<Longrightarrow> set (concat A) \<noteq> {}"
proof -
  assume g: "grid n m A" and n: "0 < n" and m: "0 < m"
  then have "A ! 0 \<in> set A" "A ! 0 \<noteq> []"
    by (auto simp: grid_def list_all_length)
  then have "concat A \<noteq> []" by auto
  then show ?thesis by (simp del: set_concat)
qed

lemma grid_speed: "grid n m vx \<Longrightarrow> grid n m vy \<Longrightarrow> grid n m (speed vx vy)"
  by (simp add: speed_def)

lemma Min_antitone_image:
  fixes S :: "real set"
  assumes "finite S" "S \<noteq> {}" "\<And>x. x \<in> S \<Longrightarrow> 0 \<le> x" "0 < d"
  shows "Min ((\<lambda>x. d / (1 + x)) ` S) = d / (1 + Max S)"
proof (rule Min_eqI)
  show "finite ((\<lambda>x. d / (1 + x)) ` S)" using assms by simp
  show "d / (1 + Max S) \<in> (\<lambda>x. d / (1 + x)) ` S" using assms by simp
  fix y assume "y \<in> (\<lambda>x. d / (1 + x)) ` S"
  then obtain x where x: "x \<in> S" "y = d / (1 + x)" by auto
  then have "x \<le> Max S" "0 \<le> x" using assms by simp_all
  then show "d / (1 + Max S) \<le> y" using assms(4) x(2) by (simp add: frac_le)
qed

lemma cfl_dt_max:
  assumes "grid n m vx" "grid n m vy" "0 < n" "0 < m" "0 < dx_of cfg"
  shows "cfl_dt cfg vx vy = courant_fac cfg * (dx_of cfg / (1 + np_max (speed vx vy)))"
proof -
  let ?S = "set (concat (speed vx vy))"
  have ne: "?S \<noteq> {}" using grid_nonempty [OF grid_speed [OF assms(1,2)] assms(3,4)] .
  have "np_min (ew1 (\<lambda>x. dx_of cfg / x) (ew1 (\<lambda>x. 1 + x) (speed vx vy)))
          = Min ((\<lambda>x. dx_of cfg / (1 + x)) ` ?S)"
    by (simp only: np_min_def set_concat_ew1 image_image)
  also have "\<dots> = dx_of cfg / (1 + Max ?S)"
    using ne assms(5) by (intro Min_antitone_image) (simp_all add: speed_nonneg del: set_concat)
  finally show ?thesis by (simp add: cfl_dt_def speed_def np_max_def)
qed

lemma np_max_speed_nonneg:
  assumes "grid n m vx" "grid n m vy" "0 < n" "0 < m"
  shows "0 \<le> np_max (speed vx vy)"
proof -
  let ?S = "set (concat (speed vx vy))"
  have ne: "?S \<noteq> {}" using grid_nonempty [OF grid_speed [OF assms(1,2)] assms(3,4)] .
  then have "Max ?S \<in> ?S" by (intro Max_in) (simp_all del: set_concat)
  then show ?thesis by (simp add: np_max_def speed_nonneg del: set_concat)
qed

lemma step_time:
  "primitive_variables (Mass s) (Momx s) (Momy s) (vol_of cfg) = (rho, vx, vy) \<Longrightarrow>
   t (step cfg s) = t s + fst (get_dt cfg s vx vy)
   \<and> outputCount (step cfg s) = (if snd (get_dt cfg s vx vy) then outputCount s + 1 else outputCount s)
   \<and> frames (step cfg s) = (if snd (get_dt cfg s vx vy) then frames s @ [t s + fst (get_dt cfg s vx vy)] else frames s)"
  by (simp add: step_def face_states_def Let_def split_def)

text \<open>
  Claim C3. In every turn of the loop, on a non-empty grid with cell size \<open>dx > 0\<close>, the
  time step \<open>dt\<close> of the turn (the increase of \<open>t\<close>) satisfies
  \<open>dt (1 + maxSpeed) / dx \<le> courant_fac\<close>, where \<open>maxSpeed\<close> is the maximum over all cells
  of the speed of the current primitive fields. In a turn that draws no frame (the frame
  counter stays), \<open>dt\<close> is \<open>courant_fac\<close> times the minimum over the cells of
  \<open>dx / (1 + speed)\<close> and equality holds; in a turn that draws a frame \<open>dt\<close> is cut to reach
  the frame time and the inequality is strict.
\<close>

theorem cfl_bound:
  assumes "wf_state n m s" "0 < n" "0 < m" "0 < dx_of cfg"
  shows "case primitive_variables (Mass s) (Momx s) (Momy s) (vol_of cfg) of (rho, vx, vy) \<Rightarrow>
    (let maxSpeed = np_max (speed vx vy);
         dt = t (step cfg s) - t s
     in dt * (1 + maxSpeed) / dx_of cfg \<le> courant_fac cfg
      \<and> (if outputCount (step cfg s) = outputCount s
         then dt = cfl_dt cfg vx vy \<and> dt * (1 + maxSpeed) / dx_of cfg = courant_fac cfg
         else dt = next_output cfg (outputCount s) - t s
            \<and> dt * (1 + maxSpeed) / dx_of cfg < courant_fac cfg))"
proof -
  obtain rho vx vy where p: "primitive_variables (Mass s) (Momx s) (Momy s) (vol_of cfg) = (rho, vx, vy)"
    by (metis prod_cases3)
  have g: "grid n m vx" "grid n m vy"
    using grid_primitive_variables [OF p, of n m] assms(1) by (simp_all add: wf_state_def)
  let ?M = "np_max (speed vx vy)"
  have M: "0 \<le> ?M" using np_max_speed_nonneg [OF g assms(2,3)] .
  have cfl: "cfl_dt cfg vx vy = courant_fac cfg * (dx_of cfg / (1 + ?M))"
    using cfl_dt_max [OF g assms(2,3,4)] .
  have eq: "cfl_dt cfg vx vy * (1 + ?M) / dx_of cfg = courant_fac cfg"
    using M assms(4) by (simp add: cfl)
  have pos: "0 < (1 + ?M) / dx_of cfg" using M assms(4) by simp
  show ?thesis
  proof (cases "snd (get_dt cfg s vx vy)")
    case True
    then have tr: "t s + cfl_dt cfg vx vy > next_output cfg (outputCount s)"
      and dt: "fst (get_dt cfg s vx vy) = next_output cfg (outputCount s) - t s"
      by (simp_all add: get_dt_def Let_def split: if_splits)
    have "next_output cfg (outputCount s) - t s < cfl_dt cfg vx vy" using tr by simp
    then have "(next_output cfg (outputCount s) - t s) * ((1 + ?M) / dx_of cfg)
                 < cfl_dt cfg vx vy * ((1 + ?M) / dx_of cfg)"
      using pos by (simp only: mult_strict_right_mono)
    then have "(next_output cfg (outputCount s) - t s) * (1 + ?M) / dx_of cfg < courant_fac cfg"
      using eq by simp
    then show ?thesis
      using step_time [OF p] True dt by (simp add: p Let_def)
  next
    case False
    then have dt: "fst (get_dt cfg s vx vy) = cfl_dt cfg vx vy"
      by (simp add: get_dt_def Let_def split: if_splits)
    show ?thesis
      using step_time [OF p] False dt eq by (simp add: p Let_def)
  qed
qed


theorem cfl_bound_witness:
  "wf_state 2 2 example_state \<and> 0 < dx_of example_config \<and>
   (case primitive_variables (Mass example_state) (Momx example_state) (Momy example_state)
           (vol_of example_config) of
      (rho, vx, vy) \<Rightarrow>
        (t (step example_config example_state) - t example_state) * (1 + np_max (speed vx vy))
           / dx_of example_config \<le> courant_fac example_config)"
proof -
  have w: "wf_state 2 2 example_state"
    by (simp add: wf_state_def grid_def example_state_def)
  have d: "0 < dx_of example_config"
    by (simp add: dx_of_def example_config_def)
  show ?thesis
    using cfl_bound [OF w _ _ d] w d by (simp add: Let_def split_def)
qed

section \<open>Frames\<close>

text \<open>
  What one turn does to the time and to the frames: when the CFL step would pass the next
  frame time, the turn ends exactly on it, draws a frame and advances the frame counter;
  otherwise it takes the CFL step and draws nothing. A turn never passes the next frame
  time.
\<close>

lemma step_snapping:
  assumes "primitive_variables (Mass s) (Momx s) (Momy s) (vol_of cfg) = (rho, vx, vy)"
  shows "if t s + cfl_dt cfg vx vy > next_output cfg (outputCount s)
         then t (step cfg s) = next_output cfg (outputCount s)
            \<and> outputCount (step cfg s) = outputCount s + 1
            \<and> frames (step cfg s) = frames s @ [next_output cfg (outputCount s)]
         else t (step cfg s) = t s + cfl_dt cfg vx vy
            \<and> outputCount (step cfg s) = outputCount s
            \<and> frames (step cfg s) = frames s"
  using step_time [OF assms] by (simp add: get_dt_def Let_def)

lemma step_not_past_target:
  "t s \<le> next_output cfg (outputCount s) \<Longrightarrow> t (step cfg s) \<le> next_output cfg (outputCount s)"
proof -
  obtain rho vx vy where
    p: "primitive_variables (Mass s) (Momx s) (Momy s) (vol_of cfg) = (rho, vx, vy)"
    by (metis prod_cases3)
  show ?thesis using step_snapping [OF p] by (simp split: if_splits)
qed

text \<open>The frames drawn so far are the frame times \<open>1, \<dots>, outputCount - 1\<close>, in order.\<close>

lemma frames_are_targets:
  assumes "1 \<le> outputCount s"
    and "frames s = map (\<lambda>k. next_output cfg (int k)) [1..<nat (outputCount s)]"
  shows "1 \<le> outputCount (step cfg s)
       \<and> frames (step cfg s) = map (\<lambda>k. next_output cfg (int k)) [1..<nat (outputCount (step cfg s))]"
proof -
  obtain rho vx vy where
    p: "primitive_variables (Mass s) (Momx s) (Momy s) (vol_of cfg) = (rho, vx, vy)"
    by (metis prod_cases3)
  have "nat (outputCount s + 1) = Suc (nat (outputCount s))" "1 \<le> nat (outputCount s)"
    using assms(1) by simp_all
  then show ?thesis
    using step_snapping [OF p] assms by (simp split: if_splits)
qed

text \<open>
  Over a whole run, when the frame times do not decrease: the time never passes the next
  frame time, and the frames are drawn at the frame times, one after the other.
\<close>

lemma step_keeps_frame_order:
  assumes "0 \<le> tEnd cfg / real_of_int (Nout cfg)"
    and "t s \<le> next_output cfg (outputCount s)"
  shows "t (step cfg s) \<le> next_output cfg (outputCount (step cfg s))"
proof -
  obtain rho vx vy where
    p: "primitive_variables (Mass s) (Momx s) (Momy s) (vol_of cfg) = (rho, vx, vy)"
    by (metis prod_cases3)
  have "next_output cfg (outputCount s) \<le> next_output cfg (outputCount s + 1)"
    using assms(1) by (simp add: next_output_def add_divide_distrib algebra_simps)
  then show ?thesis
    using step_snapping [OF p] assms(2) by (simp split: if_splits)
qed

lemma run_frames:
  assumes "0 \<le> tEnd cfg / real_of_int (Nout cfg)"
    and "t s \<le> next_output cfg (outputCount s)" "1 \<le> outputCount s"
    and "frames s = map (\<lambda>i. next_output cfg (int i)) [1..<nat (outputCount s)]"
  shows "t ((step cfg ^^ k) s) \<le> next_output cfg (outputCount ((step cfg ^^ k) s))
       \<and> 1 \<le> outputCount ((step cfg ^^ k) s)
       \<and> frames ((step cfg ^^ k) s)
           = map (\<lambda>i. next_output cfg (int i)) [1..<nat (outputCount ((step cfg ^^ k) s))]"
proof (induction k)
  case 0
  show ?case using assms by simp
next
  case (Suc k)
  show ?case
    using step_keeps_frame_order [OF assms(1), of "(step cfg ^^ k) s"]
      frames_are_targets [of "(step cfg ^^ k) s" cfg] Suc.IH
    by simp
qed


lemma cfl_dt_uniform:
  "0 < n \<Longrightarrow> 0 < m \<Longrightarrow> cfl_dt cfg (const_field n m 0) (const_field n m 0) = courant_fac cfg * dx_of cfg"
  by (simp add: cfl_dt_def)

lemma step_uniform_dt:
  assumes "dx_of cfg \<noteq> 0" "uniform_state cfg n m s" "0 < n" "0 < m"
  shows "step cfg s =
     (if t s + courant_fac cfg * dx_of cfg > next_output cfg (outputCount s)
      then s\<lparr>t := next_output cfg (outputCount s), outputCount := outputCount s + 1,
              frames := frames s @ [next_output cfg (outputCount s)]\<rparr>
      else s\<lparr>t := t s + courant_fac cfg * dx_of cfg\<rparr>)"
  by (simp add: step_uniform [OF assms(1,2)] get_dt_def cfl_dt_uniform [OF assms(3,4)] Let_def)

lemma init_snap:
  "init_state snap_config =
     Inr \<lparr>Mass = [[1]], Momx = [[0]], Momy = [[0]], t = 0, outputCount = 1, frames = []\<rparr>"
  by (simp add: init_state_def snap_config_def dx_of_def vol_of_def linspace_def meshgrid_def
      Let_def ew1_def ew2_def conserved_variables_def)

text \<open>
  Claim C4. The claim says that with \<^verbatim>\<open>tEnd = 1\<close> and \<^verbatim>\<open>Nout = 4\<close> a frame is due exactly at
  the times 0.25, 0.5, 0.75 and 1.0. The test of the loop is \<^verbatim>\<open>t + dt > outputCount*tEnd/Nout\<close>:
  a CFL step that ends exactly on a frame time draws nothing. With one cell of size 1 and
  \<^verbatim>\<open>courant_fac = 0.25\<close> the CFL step is 0.25; the run takes seven turns, the seventh ends
  on \<^verbatim>\<open>t = 1 = tEnd\<close> without a frame, and the loop is left: the frames are those of
  0.25, 0.5 and 0.75 only.
\<close>

theorem snapping_misses_final_frame:
  "main 7 snap_config =
     Some (Inr \<lparr>Mass = [[1]], Momx = [[0]], Momy = [[0]], t = 1, outputCount = 4,
                frames = [1 / 4, 1 / 2, 3 / 4]\<rparr>)"
proof -
  let ?s = "\<lambda>x k fs. \<lparr>Mass = [[1]], Momx = [[0]], Momy = [[0::real]], t = x, outputCount = k,
                        frames = fs\<rparr>"
  have d: "dx_of snap_config \<noteq> 0" by (simp add: dx_of_def snap_config_def)
  have u: "uniform_state snap_config 1 1 (?s x k fs)" for x k fs
    by (simp add: uniform_fields vol_of_def dx_of_def snap_config_def const_field_def)
  have st: "step snap_config (?s x k fs) =
     (if x + 1 / 4 > real_of_int k / 4 then ?s (real_of_int k / 4) (k + 1) (fs @ [real_of_int k / 4])
      else ?s (x + 1 / 4) k fs)" for x k fs
    by (simp add: step_uniform_dt [OF d u] next_output_def)
       (simp add: snap_config_def dx_of_def)
  have "main_loop 7 snap_config (?s 0 1 []) = Some (?s 1 4 [1 / 4, 1 / 2, 3 / 4])"
    by (simp add: eval_nat_numeral st) (simp add: snap_config_def)
  then show ?thesis by (simp add: main_def init_snap)
qed


section \<open>The two calls of the Riemann solver\<close>

subsection \<open>Exchanging the axes\<close>

text \<open>
  A check of the axis convention as a whole: one turn of the loop commutes with the
  exchange of the two axes. Were a tangential flux given to the wrong momentum, or a roll
  done along the wrong axis, this symmetry would fail.
\<close>

lemma grid_transpose [simp]: "grid n m A \<Longrightarrow> grid m n (transpose_field m A)"
  by (simp add: grid_def transpose_field_def list_all_iff)

lemma cell_transpose:
  "grid n m A \<Longrightarrow> i < n \<Longrightarrow> j < m \<Longrightarrow> cell (transpose_field m A) j i = cell A i j"
  by (simp add: grid_def transpose_field_def cell_def)

lemma transpose_ew1:
  assumes "grid n m A"
  shows "ew1 g (transpose_field m A) = transpose_field m (ew1 g A)"
  using assms
  by (intro field_eqI [where n = m and m = n])
     (simp_all add: cell_transpose [where n = n] cell_ew1 [where n = n and m = m]
        cell_ew1 [where n = m and m = n])

lemma transpose_ew2:
  assumes "grid n m A" "grid n m B"
  shows "ew2 g (transpose_field m A) (transpose_field m B) = transpose_field m (ew2 g A B)"
  using assms
  by (intro field_eqI [where n = m and m = n])
     (simp_all add: cell_transpose [where n = n] cell_ew2 [where n = n and m = m]
        cell_ew2 [where n = m and m = n])

lemma mod_bound: "0 < n \<Longrightarrow> nat (k mod int n) < n"
  by (simp add: nat_less_iff)

lemma transpose_roll_aX:
  assumes "grid n m A"
  shows "np_roll (transpose_field m A) s aX = transpose_field m (np_roll A s aY)"
proof (rule field_eqI [where n = m and m = n])
  fix j i assume ji: "j < m" "i < n"
  then have "nat ((int i - s) mod int n) < n" by (intro mod_bound) simp
  then show "cell (np_roll (transpose_field m A) s aX) j i
           = cell (transpose_field m (np_roll A s aY)) j i"
    using assms ji
    by (simp add: cell_roll_aX [where n = m and m = n] cell_roll_aY [where n = n and m = m]
        cell_transpose [where n = n])
qed (use assms in simp_all)

lemma transpose_roll_aY:
  assumes "grid n m A"
  shows "np_roll (transpose_field m A) s aY = transpose_field m (np_roll A s aX)"
proof (rule field_eqI [where n = m and m = n])
  fix j i assume ji: "j < m" "i < n"
  then have "nat ((int j - s) mod int m) < m" by (intro mod_bound) simp
  then show "cell (np_roll (transpose_field m A) s aY) j i
           = cell (transpose_field m (np_roll A s aX)) j i"
    using assms ji
    by (simp add: cell_roll_aX [where n = n and m = m] cell_roll_aY [where n = m and m = n]
        cell_transpose [where n = n])
qed (use assms in simp_all)

lemma cells_grid:
  assumes "grid n m A"
  shows "set (concat A) = (\<lambda>(i, j). cell A i j) ` ({..<n} \<times> {..<m})"
proof -
  have len: "length A = n" "\<And>i. i < n \<Longrightarrow> length (A ! i) = m"
    using assms by (simp_all add: grid_def list_all_length)
  show ?thesis
  proof (intro set_eqI iffI)
    fix x assume "x \<in> set (concat A)"
    then obtain r where r: "r \<in> set A" "x \<in> set r" by auto
    then obtain i where i: "i < n" "r = A ! i" using len(1) by (metis in_set_conv_nth)
    then obtain j where j: "j < m" "x = r ! j" using r(2) len(2) by (metis in_set_conv_nth)
    show "x \<in> (\<lambda>(i, j). cell A i j) ` ({..<n} \<times> {..<m})"
      using i j by (auto simp: cell_def)
  next
    fix x assume "x \<in> (\<lambda>(i, j). cell A i j) ` ({..<n} \<times> {..<m})"
    then obtain i j where ij: "i < n" "j < m" "x = A ! i ! j" by (auto simp: cell_def)
    then have "A ! i \<in> set A" "x \<in> set (A ! i)" using len by simp_all
    then show "x \<in> set (concat A)" by auto
  qed
qed

lemma np_min_transpose:
  assumes "grid n m A"
  shows "np_min (transpose_field m A) = np_min A"
proof -
  have "set (concat (transpose_field m A)) = (\<lambda>(j, i). cell (transpose_field m A) j i) ` ({..<m} \<times> {..<n})"
    using cells_grid [OF grid_transpose [OF assms]] .
  also have "\<dots> = (\<lambda>(i, j). cell A i j) ` ({..<n} \<times> {..<m})"
    using assms by (force simp: cell_transpose [where n = n] image_iff)
  also have "\<dots> = set (concat A)" using cells_grid [OF assms] by simp
  finally show ?thesis by (simp only: np_min_def)
qed


lemma swap_axes_simps [simp]:
  "Mass (swap_axes m s) = transpose_field m (Mass s)"
  "Momx (swap_axes m s) = transpose_field m (Momy s)"
  "Momy (swap_axes m s) = transpose_field m (Momx s)"
  "t (swap_axes m s) = t s"
  "outputCount (swap_axes m s) = outputCount s"
  "frames (swap_axes m s) = frames s"
  by (simp_all add: swap_axes_def)

lemma fadd_commute: "grid n m A \<Longrightarrow> grid n m B \<Longrightarrow> fadd A B = fadd B A"
  by (intro field_eqI [where n = n and m = m]) (simp_all add: cell_ew2 [where n = n and m = m])

lemma fadd4_swap:
  assumes "grid n m F" "grid n m a" "grid n m b" "grid n m c" "grid n m d"
  shows "fadd (fadd (fadd (fadd F a) b) c) d = fadd (fadd (fadd (fadd F c) d) a) b"
  using assms
  by (intro field_eqI [where n = n and m = m]) (simp_all add: cell_ew2 [where n = n and m = m])

lemma transpose_primitive_variables:
  assumes "primitive_variables M Px Py V = (rho, vx, vy)"
    and "grid n m M" "grid n m Px" "grid n m Py"
  shows "primitive_variables (transpose_field m M) (transpose_field m Py) (transpose_field m Px) V
           = (transpose_field m rho, transpose_field m vy, transpose_field m vx)"
  using assms
  by (auto simp add: primitive_variables_def Let_def transpose_ew1 [where n = n]
      transpose_ew2 [where n = n])

lemma transpose_grad:
  assumes "grad f dx = (f_dx, f_dy)" and "grid n m f"
  shows "grad (transpose_field m f) dx = (transpose_field m f_dy, transpose_field m f_dx)"
  using assms
  by (auto simp add: grad_def Let_def transpose_ew1 [where n = n] transpose_ew2 [where n = n]
      transpose_roll_aX [where n = n] transpose_roll_aY [where n = n])

lemma transpose_extrapolate:
  assumes "extrapolate f f_dx f_dy dx = (f_XL, f_XR, f_YL, f_YR)"
    and "grid n m f" "grid n m f_dx" "grid n m f_dy"
  shows "extrapolate (transpose_field m f) (transpose_field m f_dy) (transpose_field m f_dx) dx
         = (transpose_field m f_YL, transpose_field m f_YR, transpose_field m f_XL,
            transpose_field m f_XR)"
  using assms
  by (auto simp add: extrapolate_def Let_def transpose_ew1 [where n = n]
      transpose_ew2 [where n = n] transpose_roll_aX [where n = n]
      transpose_roll_aY [where n = n])

lemma transpose_get_flux:
  assumes "get_flux rho_L rho_R vx_L vx_R vy_L vy_R = (flux_Mass, flux_Momx, flux_Momy)"
    and "grid n m rho_L" "grid n m rho_R" "grid n m vx_L" "grid n m vx_R"
    and "grid n m vy_L" "grid n m vy_R"
  shows "get_flux (transpose_field m rho_L) (transpose_field m rho_R) (transpose_field m vx_L)
           (transpose_field m vx_R) (transpose_field m vy_L) (transpose_field m vy_R)
         = (transpose_field m flux_Mass, transpose_field m flux_Momx,
            transpose_field m flux_Momy)"
  using assms
  by (auto simp add: get_flux_def Let_def transpose_ew1 [where n = n]
      transpose_ew2 [where n = n])

lemma transpose_apply_flux:
  assumes "grid n m F" "grid n m flux_F_X" "grid n m flux_F_Y"
  shows "apply_flux (transpose_field m F) (transpose_field m flux_F_Y)
           (transpose_field m flux_F_X) dx dt
         = transpose_field m (apply_flux F flux_F_X flux_F_Y dx dt)"
proof -
  let ?a = "ew1 (\<lambda>x. - dt * dx * x) flux_F_X"
  let ?b = "ew1 (\<lambda>x. dt * dx * x) (np_roll flux_F_X L aX)"
  let ?c = "ew1 (\<lambda>x. - dt * dx * x) flux_F_Y"
  let ?d = "ew1 (\<lambda>x. dt * dx * x) (np_roll flux_F_Y L aY)"
  have "apply_flux (transpose_field m F) (transpose_field m flux_F_Y)
           (transpose_field m flux_F_X) dx dt
         = transpose_field m (fadd (fadd (fadd (fadd F ?c) ?d) ?a) ?b)"
    using assms
    by (simp add: apply_flux_def Let_def transpose_ew1 [where n = n]
        transpose_ew2 [where n = n] transpose_roll_aX [where n = n]
        transpose_roll_aY [where n = n])
  also have "fadd (fadd (fadd (fadd F ?c) ?d) ?a) ?b = fadd (fadd (fadd (fadd F ?a) ?b) ?c) ?d"
    using assms by (intro fadd4_swap [where n = n and m = m]) simp_all
  finally show ?thesis by (simp add: apply_flux_def Let_def)
qed

lemma transpose_cfl_dt:
  assumes "grid n m vx" "grid n m vy"
  shows "cfl_dt cfg (transpose_field m vy) (transpose_field m vx) = cfl_dt cfg vx vy"
proof -
  have "fadd (ew1 (\<lambda>x. x ^ 2) vy) (ew1 (\<lambda>x. x ^ 2) vx)
          = fadd (ew1 (\<lambda>x. x ^ 2) vx) (ew1 (\<lambda>x. x ^ 2) vy)"
    using assms by (intro fadd_commute [where n = n and m = m]) simp_all
  then show ?thesis
    using assms
    by (simp add: cfl_dt_def transpose_ew1 [where n = n] transpose_ew2 [where n = n]
        np_min_transpose [where n = n])
qed

lemma transpose_get_dt:
  assumes "grid n m vx" "grid n m vy"
  shows "get_dt cfg (swap_axes m s) (transpose_field m vy) (transpose_field m vx)
           = get_dt cfg s vx vy"
  by (simp add: get_dt_def transpose_cfl_dt [OF assms] Let_def)

lemma transpose_half_step:
  assumes "half_step dt rho vx vy rho_dx rho_dy vx_dx vx_dy vy_dx vy_dy
             = (rho_prime, vx_prime, vy_prime)"
    and g: "grid n m rho" "grid n m vx" "grid n m vy"
    "grid n m rho_dx" "grid n m rho_dy" "grid n m vx_dx" "grid n m vx_dy"
    "grid n m vy_dx" "grid n m vy_dy"
  shows "half_step dt (transpose_field m rho) (transpose_field m vy) (transpose_field m vx)
           (transpose_field m rho_dy) (transpose_field m rho_dx)
           (transpose_field m vy_dy) (transpose_field m vy_dx)
           (transpose_field m vx_dy) (transpose_field m vx_dx)
         = (transpose_field m rho_prime, transpose_field m vy_prime,
            transpose_field m vx_prime)"
proof -
  have r: "rho_prime = fsub rho (ew1 (\<lambda>x. 0.5 * dt * x)
                        (fadd (fadd (fadd (fmul vx rho_dx) (fmul rho vx_dx)) (fmul vy rho_dy))
                              (fmul rho vy_dy)))"
    and x: "vx_prime = fsub vx (ew1 (\<lambda>x. 0.5 * dt * x)
                        (fadd (fadd (fmul vx vx_dx) (fmul vy vx_dy))
                              (fmul (ew1 (\<lambda>x. 1 / x) rho) rho_dx)))"
    and y: "vy_prime = fsub vy (ew1 (\<lambda>x. 0.5 * dt * x)
                        (fadd (fadd (fmul vx vy_dx) (fmul vy vy_dy))
                              (fmul (ew1 (\<lambda>x. 1 / x) rho) rho_dy)))"
    using assms(1) by (simp_all add: half_step_def Let_def)
  have r': "fadd (fadd (fadd (fmul vy rho_dy) (fmul rho vy_dy)) (fmul vx rho_dx)) (fmul rho vx_dx)
          = fadd (fadd (fadd (fmul vx rho_dx) (fmul rho vx_dx)) (fmul vy rho_dy)) (fmul rho vy_dy)"
    using g
    by (intro field_eqI [where n = n and m = m]) (simp_all add: cell_ew2 [where n = n and m = m])
  have x': "fadd (fmul vy vy_dy) (fmul vx vy_dx) = fadd (fmul vx vy_dx) (fmul vy vy_dy)"
    using g by (intro fadd_commute [where n = n and m = m]) simp_all
  have y': "fadd (fmul vy vx_dy) (fmul vx vx_dx) = fadd (fmul vx vx_dx) (fmul vy vx_dy)"
    using g by (intro fadd_commute [where n = n and m = m]) simp_all
  show ?thesis
    using g
    by (simp add: half_step_def Let_def transpose_ew1 [where n = n]
        transpose_ew2 [where n = n] r x y r' x' y')
qed


lemma transpose_face_states:
  assumes "wf_state n m s"
    and "face_states cfg s =
           (dt, plotThisTurn, (rho_XL, rho_XR, rho_YL, rho_YR), (vx_XL, vx_XR, vx_YL, vx_YR),
            (vy_XL, vy_XR, vy_YL, vy_YR))"
  shows "face_states cfg (swap_axes m s) =
           (dt, plotThisTurn,
            (transpose_field m rho_YL, transpose_field m rho_YR, transpose_field m rho_XL,
             transpose_field m rho_XR),
            (transpose_field m vy_YL, transpose_field m vy_YR, transpose_field m vy_XL,
             transpose_field m vy_XR),
            (transpose_field m vx_YL, transpose_field m vx_YR, transpose_field m vx_XL,
             transpose_field m vx_XR))"
proof -
  let ?dx = "dx_of cfg"
  have gs: "grid n m (Mass s)" "grid n m (Momx s)" "grid n m (Momy s)"
    using assms(1) by (simp_all add: wf_state_def)
  obtain rho vx vy where p: "primitive_variables (Mass s) (Momx s) (Momy s) (vol_of cfg) = (rho, vx, vy)"
    by (metis prod_cases3)
  obtain dt' plot' where d: "get_dt cfg s vx vy = (dt', plot')"
    by fastforce
  obtain rho_dx rho_dy where g1: "grad rho ?dx = (rho_dx, rho_dy)" by fastforce
  obtain vx_dx vx_dy where g2: "grad vx ?dx = (vx_dx, vx_dy)" by fastforce
  obtain vy_dx vy_dy where g3: "grad vy ?dx = (vy_dx, vy_dy)" by fastforce
  obtain rho_prime vx_prime vy_prime where
    h: "half_step dt' rho vx vy rho_dx rho_dy vx_dx vx_dy vy_dx vy_dy = (rho_prime, vx_prime, vy_prime)"
    by (metis prod_cases3)
  have gp: "grid n m rho" "grid n m vx" "grid n m vy"
    using grid_primitive_variables [OF p, of n m] gs by simp_all
  have gg: "grid n m rho_dx" "grid n m rho_dy" "grid n m vx_dx" "grid n m vx_dy"
    "grid n m vy_dx" "grid n m vy_dy"
    using grid_grad [OF g1, of n m] grid_grad [OF g2, of n m] grid_grad [OF g3, of n m] gp
    by simp_all
  have gh: "grid n m rho_prime" "grid n m vx_prime" "grid n m vy_prime"
    using grid_half_step [OF h, of n m] gp gg by simp_all
  have fs: "face_states cfg s =
      (dt', plot', extrapolate rho_prime rho_dx rho_dy ?dx, extrapolate vx_prime vx_dx vx_dy ?dx,
       extrapolate vy_prime vy_dx vy_dy ?dx)"
    by (simp add: face_states_def Let_def p d g1 g2 g3 h)
  have e: "dt' = dt" "plot' = plotThisTurn"
    "extrapolate rho_prime rho_dx rho_dy ?dx = (rho_XL, rho_XR, rho_YL, rho_YR)"
    "extrapolate vx_prime vx_dx vx_dy ?dx = (vx_XL, vx_XR, vx_YL, vx_YR)"
    "extrapolate vy_prime vy_dx vy_dy ?dx = (vy_XL, vy_XR, vy_YL, vy_YR)"
    using fs assms(2) by simp_all
  have p': "primitive_variables (transpose_field m (Mass s)) (transpose_field m (Momy s))
              (transpose_field m (Momx s)) (vol_of cfg)
            = (transpose_field m rho, transpose_field m vy, transpose_field m vx)"
    using transpose_primitive_variables [OF p gs] .
  have d': "get_dt cfg (swap_axes m s) (transpose_field m vy) (transpose_field m vx) = (dt', plot')"
    using transpose_get_dt [OF gp(2,3)] d by simp
  show ?thesis
    by (simp add: face_states_def Let_def p' d'
        transpose_grad [OF g1 gp(1)] transpose_grad [OF g2 gp(2)] transpose_grad [OF g3 gp(3)]
        transpose_half_step [OF h gp gg]
        transpose_extrapolate [OF e(3) gh(1) gg(1,2)]
        transpose_extrapolate [OF e(4) gh(2) gg(3,4)]
        transpose_extrapolate [OF e(5) gh(3) gg(5,6)])
       (simp add: e(1,2))
qed

lemma step_commutes_with_swap_axes:
  assumes "wf_state n m s"
  shows "step cfg (swap_axes m s) = swap_axes m (step cfg s)"
proof -
  obtain dt plotThisTurn rho_XL rho_XR rho_YL rho_YR vx_XL vx_XR vx_YL vx_YR
    vy_XL vy_XR vy_YL vy_YR
  where fs: "face_states cfg s =
           (dt, plotThisTurn, (rho_XL, rho_XR, rho_YL, rho_YR), (vx_XL, vx_XR, vx_YL, vx_YR),
            (vy_XL, vy_XR, vy_YL, vy_YR))"
    and g: "grid n m rho_XL" "grid n m rho_XR" "grid n m rho_YL" "grid n m rho_YR"
      "grid n m vx_XL" "grid n m vx_XR" "grid n m vx_YL" "grid n m vx_YR"
      "grid n m vy_XL" "grid n m vy_XR" "grid n m vy_YL" "grid n m vy_YR"
    using face_states_cases [OF assms, of cfg] by metis
  have gs: "grid n m (Mass s)" "grid n m (Momx s)" "grid n m (Momy s)"
    using assms(1) by (simp_all add: wf_state_def)
  obtain fMX fPxX fPyX where
    x: "get_flux rho_XL rho_XR vx_XL vx_XR vy_XL vy_XR = (fMX, fPxX, fPyX)"
    by (metis prod_cases3)
  obtain fMY fPyY fPxY where
    y: "get_flux rho_YL rho_YR vy_YL vy_YR vx_YL vx_YR = (fMY, fPyY, fPxY)"
    by (metis prod_cases3)
  have gx: "grid n m fMX" "grid n m fPxX" "grid n m fPyX"
    using grid_get_flux [OF x, of n m] g by simp_all
  have gy: "grid n m fMY" "grid n m fPyY" "grid n m fPxY"
    using grid_get_flux [OF y, of n m] g by simp_all
  have x': "get_flux (transpose_field m rho_YL) (transpose_field m rho_YR)
              (transpose_field m vy_YL) (transpose_field m vy_YR)
              (transpose_field m vx_YL) (transpose_field m vx_YR)
            = (transpose_field m fMY, transpose_field m fPyY, transpose_field m fPxY)"
    using transpose_get_flux [OF y] g by simp
  have y': "get_flux (transpose_field m rho_XL) (transpose_field m rho_XR)
              (transpose_field m vx_XL) (transpose_field m vx_XR)
              (transpose_field m vy_XL) (transpose_field m vy_XR)
            = (transpose_field m fMX, transpose_field m fPxX, transpose_field m fPyX)"
    using transpose_get_flux [OF x] g by simp
  note a = transpose_apply_flux [OF gs(1) gx(1) gy(1), of "dx_of cfg" dt]
      transpose_apply_flux [OF gs(2) gx(2) gy(3), of "dx_of cfg" dt]
      transpose_apply_flux [OF gs(3) gx(3) gy(2), of "dx_of cfg" dt]
  have l: "step cfg (swap_axes m s) =
      \<lparr>Mass = transpose_field m (apply_flux (Mass s) fMX fMY (dx_of cfg) dt),
       Momx = transpose_field m (apply_flux (Momy s) fPyX fPyY (dx_of cfg) dt),
       Momy = transpose_field m (apply_flux (Momx s) fPxX fPxY (dx_of cfg) dt),
       t = t s + dt,
       outputCount = (if plotThisTurn then outputCount s + 1 else outputCount s),
       frames = (if plotThisTurn then frames s @ [t s + dt] else frames s)\<rparr>"
    by (simp add: step_def [of cfg "swap_axes m s"] Let_def
        transpose_face_states [OF assms fs] x' y' a)
  have r: "step cfg s =
      \<lparr>Mass = apply_flux (Mass s) fMX fMY (dx_of cfg) dt,
       Momx = apply_flux (Momx s) fPxX fPxY (dx_of cfg) dt,
       Momy = apply_flux (Momy s) fPyX fPyY (dx_of cfg) dt,
       t = t s + dt,
       outputCount = (if plotThisTurn then outputCount s + 1 else outputCount s),
       frames = (if plotThisTurn then frames s @ [t s + dt] else frames s)\<rparr>"
    by (simp add: step_def Let_def fs x y)
  show ?thesis
    unfolding l r by (simp add: swap_axes_def)
qed


subsection \<open>The cells of one turn\<close>

text \<open>
  Each stage of the turn, cell by cell: the arrays that the source computes have in their
  cells the values that the specification gives.
\<close>

lemma spec_next_less [simp]: "j < m \<Longrightarrow> spec_next m j < m"
  by (simp add: spec_next_def nat_less_iff)

lemma spec_prev_less [simp]: "j < m \<Longrightarrow> spec_prev m j < m"
  by (simp add: spec_prev_def nat_less_iff)

lemma cell_roll_next_x:
  "grid n m A \<Longrightarrow> i < n \<Longrightarrow> j < m \<Longrightarrow> cell (np_roll A R aX) i j = cell A i (spec_next m j)"
  by (simp add: cell_roll_aX [where n = n and m = m] R_def spec_next_def)

lemma cell_roll_prev_x:
  "grid n m A \<Longrightarrow> i < n \<Longrightarrow> j < m \<Longrightarrow> cell (np_roll A L aX) i j = cell A i (spec_prev m j)"
  by (simp add: cell_roll_aX [where n = n and m = m] L_def spec_prev_def)

lemma cell_roll_next_y:
  "grid n m A \<Longrightarrow> i < n \<Longrightarrow> j < m \<Longrightarrow> cell (np_roll A R aY) i j = cell A (spec_next n i) j"
  by (simp add: cell_roll_aY [where n = n and m = m] R_def spec_next_def)

lemma cell_roll_prev_y:
  "grid n m A \<Longrightarrow> i < n \<Longrightarrow> j < m \<Longrightarrow> cell (np_roll A L aY) i j = cell A (spec_prev n i) j"
  by (simp add: cell_roll_aY [where n = n and m = m] L_def spec_prev_def)

lemmas cell_rules =
  cell_ew1 cell_ew2 cell_roll_next_x cell_roll_prev_x cell_roll_next_y cell_roll_prev_y

lemma has_cells_grid: "has_cells n m A a \<Longrightarrow> grid n m A"
  by (simp add: has_cells_def)

lemma has_cells_at: "has_cells n m A a \<Longrightarrow> i < n \<Longrightarrow> j < m \<Longrightarrow> cell A i j = a i j"
  by (simp add: has_cells_def)

lemma has_cells_cell: "grid n m A \<Longrightarrow> has_cells n m A (cell A)"
  by (simp add: has_cells_def)

lemma has_cells_primitive_variables:
  assumes "primitive_variables (Mass s) (Momx s) (Momy s) (vol_of cfg) = (rho, vx, vy)"
    and "wf_state n m s"
  shows "has_cells n m rho (spec_rho cfg s) \<and> has_cells n m vx (spec_vx cfg s)
       \<and> has_cells n m vy (spec_vy cfg s)"
proof -
  have g: "grid n m (Mass s)" "grid n m (Momx s)" "grid n m (Momy s)"
    using assms(2) by (simp_all add: wf_state_def)
  have r: "rho = ew1 (\<lambda>x. x / vol_of cfg) (Mass s)"
    and x: "vx = ew1 (\<lambda>x. x / vol_of cfg) (fdiv (Momx s) rho)"
    and y: "vy = ew1 (\<lambda>x. x / vol_of cfg) (fdiv (Momy s) rho)"
    using assms(1) by (auto simp add: primitive_variables_def Let_def)
  show ?thesis
    using g
    by (simp add: has_cells_def r x y cell_rules [where n = n and m = m] spec_rho_def
        spec_vx_def spec_vy_def)
qed

lemma has_cells_grad:
  assumes "grad f dx = (f_dx, f_dy)" and "has_cells n m f a"
  shows "has_cells n m f_dx (spec_grad_x m dx a) \<and> has_cells n m f_dy (spec_grad_y n dx a)"
proof -
  have g: "grid n m f" using assms(2) by (rule has_cells_grid)
  have x: "f_dx = ew1 (\<lambda>x. x / (2 * dx)) (fsub (np_roll f R aX) (np_roll f L aX))"
    and y: "f_dy = ew1 (\<lambda>x. x / (2 * dx)) (fsub (np_roll f R aY) (np_roll f L aY))"
    using assms(1) by (simp_all add: grad_def Let_def)
  show ?thesis
    using g
    by (simp add: has_cells_def x y cell_rules [where n = n and m = m] spec_grad_x_def
        spec_grad_y_def has_cells_at [OF assms(2)])
qed

lemma has_cells_extrapolate:
  assumes "extrapolate f f_dx f_dy dx = (f_XL, f_XR, f_YL, f_YR)"
    and "has_cells n m f a" "has_cells n m f_dx ax" "has_cells n m f_dy ay"
  shows "has_cells n m f_XL (spec_face_left_x m dx a ax)
       \<and> has_cells n m f_XR (spec_face_right dx a ax)
       \<and> has_cells n m f_YL (spec_face_left_y n dx a ay)
       \<and> has_cells n m f_YR (spec_face_right dx a ay)"
proof -
  note g = assms(2,3,4) [THEN has_cells_grid]
  have e: "f_XL = np_roll (fsub f (ew1 (\<lambda>x. x * dx / 2) f_dx)) R aX"
    "f_XR = fadd f (ew1 (\<lambda>x. x * dx / 2) f_dx)"
    "f_YL = np_roll (fsub f (ew1 (\<lambda>x. x * dx / 2) f_dy)) R aY"
    "f_YR = fadd f (ew1 (\<lambda>x. x * dx / 2) f_dy)"
    using assms(1) by (simp_all add: extrapolate_def Let_def)
  show ?thesis
    using g
    by (simp add: has_cells_def e cell_rules [where n = n and m = m] spec_face_left_x_def
        spec_face_right_def spec_face_left_y_def has_cells_at [OF assms(2)]
        has_cells_at [OF assms(3)] has_cells_at [OF assms(4)])
qed

lemma has_cells_apply_flux:
  assumes "has_cells n m F a" "has_cells n m flux_F_X fx" "has_cells n m flux_F_Y fy"
  shows "has_cells n m (apply_flux F flux_F_X flux_F_Y dx dt) (spec_update dt dx n m a fx fy)"
proof -
  note g = assms [THEN has_cells_grid]
  show ?thesis
    using g
    by (simp add: has_cells_def apply_flux_def Let_def cell_rules [where n = n and m = m]
        spec_update_def has_cells_at [OF assms(1)] has_cells_at [OF assms(2)]
        has_cells_at [OF assms(3)])
qed


lemma has_cells_half_step:
  assumes "half_step dt rho vx vy rho_dx rho_dy vx_dx vx_dy vy_dx vy_dy
             = (rho_prime, vx_prime, vy_prime)"
    and c: "has_cells n m rho r" "has_cells n m vx u" "has_cells n m vy v"
      "has_cells n m rho_dx rx" "has_cells n m rho_dy ry"
      "has_cells n m vx_dx ux" "has_cells n m vx_dy uy"
      "has_cells n m vy_dx vx'" "has_cells n m vy_dy vy'"
  shows "has_cells n m rho_prime (spec_predict_rho dt r u v rx ry ux vy')
       \<and> has_cells n m vx_prime (spec_predict_vx dt r u v rx ux uy)
       \<and> has_cells n m vy_prime (spec_predict_vy dt r u v ry vx' vy')"
proof -
  note g = c [THEN has_cells_grid]
  note at = c [THEN has_cells_at]
  have e: "rho_prime = fsub rho (ew1 (\<lambda>x. 0.5 * dt * x)
                        (fadd (fadd (fadd (fmul vx rho_dx) (fmul rho vx_dx)) (fmul vy rho_dy))
                              (fmul rho vy_dy)))"
    "vx_prime = fsub vx (ew1 (\<lambda>x. 0.5 * dt * x)
                        (fadd (fadd (fmul vx vx_dx) (fmul vy vx_dy))
                              (fmul (ew1 (\<lambda>x. 1 / x) rho) rho_dx)))"
    "vy_prime = fsub vy (ew1 (\<lambda>x. 0.5 * dt * x)
                        (fadd (fadd (fmul vx vy_dx) (fmul vy vy_dy))
                              (fmul (ew1 (\<lambda>x. 1 / x) rho) rho_dy)))"
    using assms(1) by (auto simp add: half_step_def Let_def)
  show ?thesis
    using g
    by (simp add: has_cells_def e cell_rules [where n = n and m = m] spec_predict_rho_def
        spec_predict_vx_def spec_predict_vy_def at)
qed

lemma has_cells_get_flux:
  assumes "get_flux rho_L rho_R vn_L vn_R vt_L vt_R = (flux_mass, flux_momn, flux_momt)"
    and c: "has_cells n m rho_L cl" "has_cells n m rho_R cr" "has_cells n m vn_L pl"
      "has_cells n m vn_R pr" "has_cells n m vt_L ql" "has_cells n m vt_R qr"
  shows "has_cells n m flux_mass
           (\<lambda>i j. fst (spec_riemann (cl i j) (cr i j) (pl i j) (pr i j) (ql i j) (qr i j)))
       \<and> has_cells n m flux_momn
           (\<lambda>i j. fst (snd (spec_riemann (cl i j) (cr i j) (pl i j) (pr i j) (ql i j) (qr i j))))
       \<and> has_cells n m flux_momt
           (\<lambda>i j. snd (snd (spec_riemann (cl i j) (cr i j) (pl i j) (pr i j) (ql i j) (qr i j))))"
proof -
  note g = c [THEN has_cells_grid]
  note at = c [THEN has_cells_at]
  have gf: "grid n m flux_mass" "grid n m flux_momn" "grid n m flux_momt"
    using grid_get_flux [OF assms(1), of n m] g by simp_all
  have "cell flux_mass i j = fst (spec_riemann (cl i j) (cr i j) (pl i j) (pr i j) (ql i j) (qr i j))
      \<and> cell flux_momn i j = fst (snd (spec_riemann (cl i j) (cr i j) (pl i j) (pr i j) (ql i j) (qr i j)))
      \<and> cell flux_momt i j = snd (snd (spec_riemann (cl i j) (cr i j) (pl i j) (pr i j) (ql i j) (qr i j)))"
    if ij: "i < n" "j < m" for i j
  proof -
    have "(flux_mass, flux_momn, flux_momt) = get_flux rho_L rho_R vn_L vn_R vt_L vt_R"
      using assms(1) by simp
    then have f: "flux_mass = fst (get_flux rho_L rho_R vn_L vn_R vt_L vt_R)"
      "flux_momn = fst (snd (get_flux rho_L rho_R vn_L vn_R vt_L vt_R))"
      "flux_momt = snd (snd (get_flux rho_L rho_R vn_L vn_R vt_L vt_R))"
      by (metis fst_conv, metis fst_conv snd_conv, metis snd_conv)
    show ?thesis
      unfolding f
      by (simp only: get_flux_def Let_def prod.case fst_conv snd_conv spec_riemann_def
          cell_ew1 [where n = n and m = m] cell_ew2 [where n = n and m = m] grid_ew1 grid_ew2
          g ij at simp_thms)
  qed
  then show ?thesis using gf by (simp add: has_cells_def)
qed


lemma step_traced_step: "fst (step_traced cfg s) = step cfg s"
  by (simp add: step_traced_def step_def get_flux_traced_def Let_def split_def)

lemma step_shear_state:
  "step example_config shear_state =
     \<lparr>Mass = [[1 / 4, 1 / 4], [1 / 4, 1 / 4]], Momx = [[0, 0], [0, 0]],
      Momy = [[0, 0], [0, 0]], t = 1 / 8, outputCount = 1, frames = []\<rparr>"
  by (simp add: step_def face_states_def primitive_variables_def get_dt_def cfl_dt_def
      grad_def half_step_def extrapolate_def get_flux_def apply_flux_def np_roll_def roll_def
      np_min_def ew1_def ew2_def R_def L_def aX_def aY_def dx_of_def vol_of_def
      next_output_def example_config_def shear_state_def Let_def power2_eq_square)

subsection \<open>The roles of the velocities\<close>

text \<open>
  Claim C7. In one turn of the loop the Riemann solver is called exactly twice: the list
  of the calls of \<open>get_flux\<close> has two entries. In every cell the first call is given the
  faces along x, with the face values of \<open>vx\<close> as normal velocity and those of \<open>vy\<close> as
  tangential velocity, and the second the faces along y, with \<open>vy\<close> as normal and \<open>vx\<close> as
  tangential velocity. The conserved arrays after the turn are, in every cell, the update
  of section 4.5 with these fluxes: the x-momentum takes the normal-momentum result of the
  x call as its x-direction flux and the tangential-momentum result of the y call as its
  y-direction flux; the y-momentum takes the tangential-momentum result of the x call as
  its x-direction flux and the normal-momentum result of the y call as its y-direction
  flux. The time step \<open>dt\<close> is the increase of \<open>t\<close> in the turn.
\<close>

theorem riemann_axis_roles:
  assumes "wf_state n m s" "i < n" "j < m"
  shows "(let dt = t (step cfg s) - t s; dx = dx_of cfg
     in fst (step_traced cfg s) = step cfg s
      \<and> (case snd (step_traced cfg s) of
           [x_call, y_call] \<Rightarrow>
             args_at x_call i j = spec_call_x cfg n m dt s i j
           \<and> args_at y_call i j = spec_call_y cfg n m dt s i j
         | _ \<Rightarrow> False)
      \<and> cell (Mass (step cfg s)) i j =
          spec_update dt dx n m (cell (Mass s))
            (\<lambda>i j. fst (spec_flux_x cfg n m dt s i j))
            (\<lambda>i j. fst (spec_flux_y cfg n m dt s i j)) i j
      \<and> cell (Momx (step cfg s)) i j =
          spec_update dt dx n m (cell (Momx s))
            (\<lambda>i j. fst (snd (spec_flux_x cfg n m dt s i j)))
            (\<lambda>i j. fst (snd (spec_flux_y cfg n m dt s i j))) i j
      \<and> cell (Momy (step cfg s)) i j =
          spec_update dt dx n m (cell (Momy s))
            (\<lambda>i j. snd (snd (spec_flux_x cfg n m dt s i j)))
            (\<lambda>i j. snd (snd (spec_flux_y cfg n m dt s i j))) i j)"
proof -
  let ?dx = "dx_of cfg"
  have gs: "grid n m (Mass s)" "grid n m (Momx s)" "grid n m (Momy s)"
    using assms(1) by (simp_all add: wf_state_def)
  obtain rho vx vy where
    p: "primitive_variables (Mass s) (Momx s) (Momy s) (vol_of cfg) = (rho, vx, vy)"
    by (metis prod_cases3)
  obtain dt plotThisTurn where d: "get_dt cfg s vx vy = (dt, plotThisTurn)"
    by fastforce
  obtain rho_dx rho_dy where g1: "grad rho ?dx = (rho_dx, rho_dy)" by fastforce
  obtain vx_dx vx_dy where g2: "grad vx ?dx = (vx_dx, vx_dy)" by fastforce
  obtain vy_dx vy_dy where g3: "grad vy ?dx = (vy_dx, vy_dy)" by fastforce
  obtain rho_prime vx_prime vy_prime where
    h: "half_step dt rho vx vy rho_dx rho_dy vx_dx vx_dy vy_dx vy_dy
          = (rho_prime, vx_prime, vy_prime)"
    by (metis prod_cases3)
  obtain rho_XL rho_XR rho_YL rho_YR where
    e1: "extrapolate rho_prime rho_dx rho_dy ?dx = (rho_XL, rho_XR, rho_YL, rho_YR)"
    by (metis prod_cases4)
  obtain vx_XL vx_XR vx_YL vx_YR where
    e2: "extrapolate vx_prime vx_dx vx_dy ?dx = (vx_XL, vx_XR, vx_YL, vx_YR)"
    by (metis prod_cases4)
  obtain vy_XL vy_XR vy_YL vy_YR where
    e3: "extrapolate vy_prime vy_dx vy_dy ?dx = (vy_XL, vy_XR, vy_YL, vy_YR)"
    by (metis prod_cases4)
  obtain fMX fPxX fPyX where
    x: "get_flux rho_XL rho_XR vx_XL vx_XR vy_XL vy_XR = (fMX, fPxX, fPyX)"
    by (metis prod_cases3)
  obtain fMY fPyY fPxY where
    y: "get_flux rho_YL rho_YR vy_YL vy_YR vx_YL vx_YR = (fMY, fPyY, fPxY)"
    by (metis prod_cases3)
  have fs: "face_states cfg s =
      (dt, plotThisTurn, (rho_XL, rho_XR, rho_YL, rho_YR), (vx_XL, vx_XR, vx_YL, vx_YR),
       (vy_XL, vy_XR, vy_YL, vy_YR))"
    by (simp add: face_states_def Let_def p d g1 g2 g3 h e1 e2 e3)
  have st: "step cfg s =
      \<lparr>Mass = apply_flux (Mass s) fMX fMY ?dx dt,
       Momx = apply_flux (Momx s) fPxX fPxY ?dx dt,
       Momy = apply_flux (Momy s) fPyX fPyY ?dx dt,
       t = t s + dt,
       outputCount = (if plotThisTurn then outputCount s + 1 else outputCount s),
       frames = (if plotThisTurn then frames s @ [t s + dt] else frames s)\<rparr>"
    by (simp add: step_def Let_def fs x y)
  have tr: "snd (step_traced cfg s) =
      [(rho_XL, rho_XR, vx_XL, vx_XR, vy_XL, vy_XR), (rho_YL, rho_YR, vy_YL, vy_YR, vx_YL, vx_YR)]"
    by (simp add: step_traced_def get_flux_traced_def Let_def fs x y)
  have dt: "t (step cfg s) - t s = dt" by (simp add: st)
  let ?r = "spec_rho cfg s" and ?u = "spec_vx cfg s" and ?v = "spec_vy cfg s"
  let ?rx = "spec_grad_x m ?dx ?r" and ?ry = "spec_grad_y n ?dx ?r"
  let ?ux = "spec_grad_x m ?dx ?u" and ?uy = "spec_grad_y n ?dx ?u"
  let ?vx = "spec_grad_x m ?dx ?v" and ?vy = "spec_grad_y n ?dx ?v"
  let ?r' = "spec_predict_rho dt ?r ?u ?v ?rx ?ry ?ux ?vy"
  let ?u' = "spec_predict_vx dt ?r ?u ?v ?rx ?ux ?uy"
  let ?v' = "spec_predict_vy dt ?r ?u ?v ?ry ?vx ?vy"
  have cp: "has_cells n m rho ?r" "has_cells n m vx ?u" "has_cells n m vy ?v"
    using has_cells_primitive_variables [OF p assms(1)] by simp_all
  have cg: "has_cells n m rho_dx ?rx" "has_cells n m rho_dy ?ry"
    "has_cells n m vx_dx ?ux" "has_cells n m vx_dy ?uy"
    "has_cells n m vy_dx ?vx" "has_cells n m vy_dy ?vy"
    using has_cells_grad [OF g1 cp(1)] has_cells_grad [OF g2 cp(2)] has_cells_grad [OF g3 cp(3)]
    by simp_all
  have ch: "has_cells n m rho_prime ?r'" "has_cells n m vx_prime ?u'" "has_cells n m vy_prime ?v'"
    using has_cells_half_step [OF h cp cg] by simp_all
  have cr: "has_cells n m rho_XL (spec_face_left_x m ?dx ?r' ?rx)"
    "has_cells n m rho_XR (spec_face_right ?dx ?r' ?rx)"
    "has_cells n m rho_YL (spec_face_left_y n ?dx ?r' ?ry)"
    "has_cells n m rho_YR (spec_face_right ?dx ?r' ?ry)"
    using has_cells_extrapolate [OF e1 ch(1) cg(1,2)] by simp_all
  have cu: "has_cells n m vx_XL (spec_face_left_x m ?dx ?u' ?ux)"
    "has_cells n m vx_XR (spec_face_right ?dx ?u' ?ux)"
    "has_cells n m vx_YL (spec_face_left_y n ?dx ?u' ?uy)"
    "has_cells n m vx_YR (spec_face_right ?dx ?u' ?uy)"
    using has_cells_extrapolate [OF e2 ch(2) cg(3,4)] by simp_all
  have cv: "has_cells n m vy_XL (spec_face_left_x m ?dx ?v' ?vx)"
    "has_cells n m vy_XR (spec_face_right ?dx ?v' ?vx)"
    "has_cells n m vy_YL (spec_face_left_y n ?dx ?v' ?vy)"
    "has_cells n m vy_YR (spec_face_right ?dx ?v' ?vy)"
    using has_cells_extrapolate [OF e3 ch(3) cg(5,6)] by simp_all
  have calls: "args_at (rho_XL, rho_XR, vx_XL, vx_XR, vy_XL, vy_XR) i j = spec_call_x cfg n m dt s i j"
    "args_at (rho_YL, rho_YR, vy_YL, vy_YR, vx_YL, vx_YR) i j = spec_call_y cfg n m dt s i j"
    using assms(2,3)
    by (simp_all add: args_at_def spec_call_x_def spec_call_y_def Let_def
        has_cells_at [OF cr(1)] has_cells_at [OF cr(2)] has_cells_at [OF cr(3)]
        has_cells_at [OF cr(4)] has_cells_at [OF cu(1)] has_cells_at [OF cu(2)]
        has_cells_at [OF cu(3)] has_cells_at [OF cu(4)] has_cells_at [OF cv(1)]
        has_cells_at [OF cv(2)] has_cells_at [OF cv(3)] has_cells_at [OF cv(4)])
  have fx: "has_cells n m fMX (\<lambda>i j. fst (spec_flux_x cfg n m dt s i j))"
    "has_cells n m fPxX (\<lambda>i j. fst (snd (spec_flux_x cfg n m dt s i j)))"
    "has_cells n m fPyX (\<lambda>i j. snd (snd (spec_flux_x cfg n m dt s i j)))"
    using has_cells_get_flux [OF x cr(1,2) cu(1,2) cv(1,2)]
    by (simp_all add: spec_flux_x_def spec_call_x_def Let_def split_def)
  have fy: "has_cells n m fMY (\<lambda>i j. fst (spec_flux_y cfg n m dt s i j))"
    "has_cells n m fPxY (\<lambda>i j. fst (snd (spec_flux_y cfg n m dt s i j)))"
    "has_cells n m fPyY (\<lambda>i j. snd (snd (spec_flux_y cfg n m dt s i j)))"
    using has_cells_get_flux [OF y cr(3,4) cv(3,4) cu(3,4)]
    by (simp_all add: spec_flux_y_def spec_call_y_def Let_def split_def)
  note up = has_cells_apply_flux [OF has_cells_cell [OF gs(1)] fx(1) fy(1), of ?dx dt]
    has_cells_apply_flux [OF has_cells_cell [OF gs(2)] fx(2) fy(2), of ?dx dt]
    has_cells_apply_flux [OF has_cells_cell [OF gs(3)] fx(3) fy(3), of ?dx dt]
  have cells: "cell (Mass (step cfg s)) i j =
          spec_update dt ?dx n m (cell (Mass s))
            (\<lambda>i j. fst (spec_flux_x cfg n m dt s i j))
            (\<lambda>i j. fst (spec_flux_y cfg n m dt s i j)) i j"
    "cell (Momx (step cfg s)) i j =
          spec_update dt ?dx n m (cell (Momx s))
            (\<lambda>i j. fst (snd (spec_flux_x cfg n m dt s i j)))
            (\<lambda>i j. fst (snd (spec_flux_y cfg n m dt s i j))) i j"
    "cell (Momy (step cfg s)) i j =
          spec_update dt ?dx n m (cell (Momy s))
            (\<lambda>i j. snd (snd (spec_flux_x cfg n m dt s i j)))
            (\<lambda>i j. snd (snd (spec_flux_y cfg n m dt s i j))) i j"
    using up [THEN has_cells_at, OF assms(2,3)] by (simp_all add: st)
  show ?thesis
    unfolding Let_def dt tr
    using step_traced_step [of cfg s] calls cells by simp
qed


theorem riemann_axis_roles_witness:
  "wf_state 2 2 shear_state
   \<and> length (snd (step_traced example_config shear_state)) = 2
   \<and> cell (Momx (step example_config shear_state)) 0 0 = 0
   \<and> spec_update (1 / 8) (1 / 2) 2 2 (cell (Momx shear_state))
         (\<lambda>i j. fst (snd (spec_flux_x example_config 2 2 (1 / 8) shear_state i j)))
         (\<lambda>i j. fst (snd (spec_flux_y example_config 2 2 (1 / 8) shear_state i j))) 0 0 = 0"
proof -
  have w: "wf_state 2 2 shear_state"
    by (simp add: wf_state_def grid_def shear_state_def)
  have d: "dx_of example_config = 1 / 2"
    by (simp add: dx_of_def example_config_def)
  have l: "length (snd (step_traced example_config shear_state)) = 2"
    by (simp add: step_traced_def get_flux_traced_def Let_def split_def)
  have c: "cell (Momx (step example_config shear_state)) 0 0 = 0"
    by (simp add: step_shear_state cell_def)
  have tm: "t (step example_config shear_state) - t shear_state = 1 / 8"
    by (simp add: step_shear_state) (simp add: shear_state_def)
  show ?thesis
    using riemann_axis_roles [OF w, of 0 0 example_config] w l c
    by (simp add: Let_def tm d)
qed


section \<open>Configuration\<close>

lemma init_state_error:
  "init_state cfg = Inl e \<longleftrightarrow>
     (N cfg = 0 \<and> e = ZeroDivisionError) \<or> (N cfg < 0 \<and> e = ValueError)"
  by (auto simp: init_state_def Let_def split_def)

text \<open>
  Claim C8, as stated, fails: the program has no check of its configuration. With
  \<^verbatim>\<open>tEnd = 0\<close> (and the other values of the source) the run returns, without an error.
\<close>

theorem no_configuration_check_counterexample:
  "map_option isl (main 0 (default_config\<lparr>tEnd := 0\<rparr>)) = Some False"
  by (simp add: main_def init_state_def default_config_def Let_def split_def)

text \<open>
  Claim C8, amended. The program checks no parameter. A run ends with an error exactly
  when \<open>N \<le> 0\<close>, and then in the set-up before the loop: \<^verbatim>\<open>ZeroDivisionError\<close> from
  \<^verbatim>\<open>Lbox / N\<close> for \<open>N = 0\<close>, \<^verbatim>\<open>ValueError\<close> from \<^verbatim>\<open>np.linspace\<close> for \<open>N < 0\<close>. With \<open>N > 0\<close>
  and \<^verbatim>\<open>tEnd \<le> 0\<close> the run is accepted: it takes no turn of the loop and returns the initial
  state.
\<close>

theorem configuration_errors:
  "(main fuel cfg = Some (Inl e) \<longleftrightarrow>
      (N cfg = 0 \<and> e = ZeroDivisionError) \<or> (N cfg < 0 \<and> e = ValueError))
   \<and> (0 < N cfg \<and> tEnd cfg \<le> 0 \<longrightarrow> main fuel cfg = Some (init_state cfg))"
proof -
  have a: "main fuel cfg = Some (Inl e) \<longleftrightarrow> init_state cfg = Inl e"
    by (cases "init_state cfg") (auto simp: main_def)
  have b: "main fuel cfg = Some (init_state cfg)" if "0 < N cfg" "tEnd cfg \<le> 0"
  proof -
    have "\<exists>s. init_state cfg = Inr s \<and> t s = 0"
      using that(1) by (simp add: init_state_def Let_def split_def)
    then obtain s where s: "init_state cfg = Inr s" "t s = 0" by blast
    then have "main_loop fuel cfg s = Some s" using that(2) by (cases fuel) simp_all
    then show ?thesis using s by (simp add: main_def)
  qed
  show ?thesis using a b by (simp add: init_state_error)
qed

theorem configuration_errors_witness:
  "main 3 (default_config\<lparr>N := 0\<rparr>) = Some (Inl ZeroDivisionError)
   \<and> main 3 (default_config\<lparr>N := - 5\<rparr>) = Some (Inl ValueError)
   \<and> main 3 (default_config\<lparr>tEnd := - 1\<rparr>) = Some (init_state (default_config\<lparr>tEnd := - 1\<rparr>))"
  using configuration_errors [of 3 "default_config\<lparr>N := 0\<rparr>" ZeroDivisionError]
    configuration_errors [of 3 "default_config\<lparr>N := - 5\<rparr>" ValueError]
    configuration_errors [of 3 "default_config\<lparr>tEnd := - 1\<rparr>"]
  by (simp add: default_config_def)


section \<open>Translation of the grid\<close>

lemma rotate_zip:
  "length xs = length ys \<Longrightarrow> rotate k (zip xs ys) = zip (rotate k xs) (rotate k ys)"
  by (simp add: rotate_drop_take drop_zip take_zip)

lemma roll_map: "roll s (map f xs) = map f (roll s xs)"
  by (simp add: roll_def rotate_map)

lemma roll_zip:
  "length xs = length ys \<Longrightarrow> roll s (zip xs ys) = zip (roll s xs) (roll s ys)"
  by (auto simp add: roll_def rotate_zip)

lemma roll_map2:
  "length xs = length ys \<Longrightarrow> roll s (map2 g xs ys) = map2 g (roll s xs) (roll s ys)"
  by (simp add: roll_map roll_zip)

lemma roll_roll: "roll s (roll s' xs) = roll s' (roll s xs)"
  by (simp add: roll_def rotate_rotate add.commute)

lemma map_roll_map2:
  "grid n m A \<Longrightarrow> grid n m B \<Longrightarrow>
   map (roll s) (map2 (map2 g) A B) = map2 (map2 g) (map (roll s) A) (map (roll s) B)"
proof (induction A arbitrary: B n)
  case Nil
  then show ?case by simp
next
  case (Cons a A)
  then obtain b B' where B: "B = b # B'" by (cases B) (auto simp: grid_def)
  obtain n' where n: "n = Suc n'" using Cons.prems by (auto simp: grid_def)
  have "grid n' m A" "grid n' m B'" "length a = length b"
    using Cons.prems B n by (auto simp: grid_def)
  then show ?case
    using Cons.IH [of n' B'] B by (simp add: roll_map2)
qed

lemma shift_ew1: "ew1 g (shift_field k ax A) = shift_field k ax (ew1 g A)"
  by (simp add: shift_field_def np_roll_def ew1_def roll_map)

lemma shift_ew2:
  "grid n m A \<Longrightarrow> grid n m B \<Longrightarrow>
   ew2 g (shift_field k ax A) (shift_field k ax B) = shift_field k ax (ew2 g A B)"
proof -
  assume g: "grid n m A" "grid n m B"
  have "length A = length B" using g by (simp add: grid_def)
  then have "roll k (map2 (map2 g) A B) = map2 (map2 g) (roll k A) (roll k B)"
    by (rule roll_map2)
  then show ?thesis
    using map_roll_map2 [OF g, of k g]
    by (cases "ax = 0") (simp_all only: shift_field_def np_roll_def ew2_def if_True if_False
        refl simp_thms)
qed

lemma shift_np_roll:
  "np_roll (shift_field k ax A) s ax' = shift_field k ax (np_roll A s ax')"
  by (simp add: shift_field_def np_roll_def roll_roll roll_map comp_def)

lemma np_min_shift: "np_min (shift_field k ax A) = np_min A"
  by (simp add: np_min_def shift_field_def np_roll_def)

lemma grid_shift [simp]: "grid n m (shift_field k ax A) = grid n m A"
  by (simp add: shift_field_def)


lemma shift_primitive_variables:
  assumes "primitive_variables M Px Py V = (rho, vx, vy)"
    and "grid n m M" "grid n m Px" "grid n m Py"
  shows "primitive_variables (shift_field k ax M) (shift_field k ax Px) (shift_field k ax Py) V
           = (shift_field k ax rho, shift_field k ax vx, shift_field k ax vy)"
  using assms
  by (auto simp add: primitive_variables_def Let_def shift_ew1 shift_ew2 [where n = n and m = m])

lemma shift_grad:
  assumes "grad f dx = (f_dx, f_dy)" and "grid n m f"
  shows "grad (shift_field k ax f) dx = (shift_field k ax f_dx, shift_field k ax f_dy)"
  using assms
  by (auto simp add: grad_def Let_def shift_ew1 shift_ew2 [where n = n and m = m] shift_np_roll)

lemma shift_half_step:
  assumes "half_step dt rho vx vy rho_dx rho_dy vx_dx vx_dy vy_dx vy_dy
             = (rho_prime, vx_prime, vy_prime)"
    and "grid n m rho" "grid n m vx" "grid n m vy"
    and "grid n m rho_dx" "grid n m rho_dy" "grid n m vx_dx" "grid n m vx_dy"
    and "grid n m vy_dx" "grid n m vy_dy"
  shows "half_step dt (shift_field k ax rho) (shift_field k ax vx) (shift_field k ax vy)
           (shift_field k ax rho_dx) (shift_field k ax rho_dy)
           (shift_field k ax vx_dx) (shift_field k ax vx_dy)
           (shift_field k ax vy_dx) (shift_field k ax vy_dy)
         = (shift_field k ax rho_prime, shift_field k ax vx_prime, shift_field k ax vy_prime)"
  using assms
  by (auto simp add: half_step_def Let_def shift_ew1 shift_ew2 [where n = n and m = m])

lemma shift_extrapolate:
  assumes "extrapolate f f_dx f_dy dx = (f_XL, f_XR, f_YL, f_YR)"
    and "grid n m f" "grid n m f_dx" "grid n m f_dy"
  shows "extrapolate (shift_field k ax f) (shift_field k ax f_dx) (shift_field k ax f_dy) dx
         = (shift_field k ax f_XL, shift_field k ax f_XR, shift_field k ax f_YL,
            shift_field k ax f_YR)"
  using assms
  by (auto simp add: extrapolate_def Let_def shift_ew1 shift_ew2 [where n = n and m = m]
      shift_np_roll)

lemma shift_get_flux:
  assumes "get_flux rho_L rho_R vx_L vx_R vy_L vy_R = (flux_Mass, flux_Momx, flux_Momy)"
    and "grid n m rho_L" "grid n m rho_R" "grid n m vx_L" "grid n m vx_R"
    and "grid n m vy_L" "grid n m vy_R"
  shows "get_flux (shift_field k ax rho_L) (shift_field k ax rho_R) (shift_field k ax vx_L)
           (shift_field k ax vx_R) (shift_field k ax vy_L) (shift_field k ax vy_R)
         = (shift_field k ax flux_Mass, shift_field k ax flux_Momx, shift_field k ax flux_Momy)"
  using assms
  by (auto simp add: get_flux_def Let_def shift_ew1 shift_ew2 [where n = n and m = m])

lemma shift_apply_flux:
  assumes "grid n m F" "grid n m flux_F_X" "grid n m flux_F_Y"
  shows "apply_flux (shift_field k ax F) (shift_field k ax flux_F_X) (shift_field k ax flux_F_Y)
           dx dt
         = shift_field k ax (apply_flux F flux_F_X flux_F_Y dx dt)"
  using assms
  by (simp add: apply_flux_def Let_def shift_ew1 shift_ew2 [where n = n and m = m]
      shift_np_roll)

lemma shift_cfl_dt:
  assumes "grid n m vx" "grid n m vy"
  shows "cfl_dt cfg (shift_field k ax vx) (shift_field k ax vy) = cfl_dt cfg vx vy"
  using assms
  by (simp add: cfl_dt_def shift_ew1 shift_ew2 [where n = n and m = m] np_min_shift)

lemma shift_get_dt:
  assumes "grid n m vx" "grid n m vy"
  shows "get_dt cfg (shift_state k ax s) (shift_field k ax vx) (shift_field k ax vy)
           = get_dt cfg s vx vy"
  by (simp add: get_dt_def shift_cfl_dt [OF assms] shift_state_def Let_def)

lemma shift_state_simps [simp]:
  "Mass (shift_state k ax s) = shift_field k ax (Mass s)"
  "Momx (shift_state k ax s) = shift_field k ax (Momx s)"
  "Momy (shift_state k ax s) = shift_field k ax (Momy s)"
  "t (shift_state k ax s) = t s"
  "outputCount (shift_state k ax s) = outputCount s"
  "frames (shift_state k ax s) = frames s"
  by (simp_all add: shift_state_def)

lemma shift_face_states:
  assumes "wf_state n m s"
    and "face_states cfg s =
           (dt, plotThisTurn, (rho_XL, rho_XR, rho_YL, rho_YR), (vx_XL, vx_XR, vx_YL, vx_YR),
            (vy_XL, vy_XR, vy_YL, vy_YR))"
  shows "face_states cfg (shift_state k ax s) =
           (dt, plotThisTurn,
            (shift_field k ax rho_XL, shift_field k ax rho_XR, shift_field k ax rho_YL,
             shift_field k ax rho_YR),
            (shift_field k ax vx_XL, shift_field k ax vx_XR, shift_field k ax vx_YL,
             shift_field k ax vx_YR),
            (shift_field k ax vy_XL, shift_field k ax vy_XR, shift_field k ax vy_YL,
             shift_field k ax vy_YR))"
proof -
  let ?dx = "dx_of cfg"
  have gs: "grid n m (Mass s)" "grid n m (Momx s)" "grid n m (Momy s)"
    using assms(1) by (simp_all add: wf_state_def)
  obtain rho vx vy where p: "primitive_variables (Mass s) (Momx s) (Momy s) (vol_of cfg) = (rho, vx, vy)"
    by (metis prod_cases3)
  obtain dt' plot' where d: "get_dt cfg s vx vy = (dt', plot')"
    by fastforce
  obtain rho_dx rho_dy where g1: "grad rho ?dx = (rho_dx, rho_dy)" by fastforce
  obtain vx_dx vx_dy where g2: "grad vx ?dx = (vx_dx, vx_dy)" by fastforce
  obtain vy_dx vy_dy where g3: "grad vy ?dx = (vy_dx, vy_dy)" by fastforce
  obtain rho_prime vx_prime vy_prime where
    h: "half_step dt' rho vx vy rho_dx rho_dy vx_dx vx_dy vy_dx vy_dy = (rho_prime, vx_prime, vy_prime)"
    by (metis prod_cases3)
  have gp: "grid n m rho" "grid n m vx" "grid n m vy"
    using grid_primitive_variables [OF p, of n m] gs by simp_all
  have gg: "grid n m rho_dx" "grid n m rho_dy" "grid n m vx_dx" "grid n m vx_dy"
    "grid n m vy_dx" "grid n m vy_dy"
    using grid_grad [OF g1, of n m] grid_grad [OF g2, of n m] grid_grad [OF g3, of n m] gp
    by simp_all
  have gh: "grid n m rho_prime" "grid n m vx_prime" "grid n m vy_prime"
    using grid_half_step [OF h, of n m] gp gg by simp_all
  have fs: "face_states cfg s =
      (dt', plot', extrapolate rho_prime rho_dx rho_dy ?dx, extrapolate vx_prime vx_dx vx_dy ?dx,
       extrapolate vy_prime vy_dx vy_dy ?dx)"
    by (simp add: face_states_def Let_def p d g1 g2 g3 h)
  have e: "dt' = dt" "plot' = plotThisTurn"
    "extrapolate rho_prime rho_dx rho_dy ?dx = (rho_XL, rho_XR, rho_YL, rho_YR)"
    "extrapolate vx_prime vx_dx vx_dy ?dx = (vx_XL, vx_XR, vx_YL, vx_YR)"
    "extrapolate vy_prime vy_dx vy_dy ?dx = (vy_XL, vy_XR, vy_YL, vy_YR)"
    using fs assms(2) by simp_all
  have p': "primitive_variables (shift_field k ax (Mass s)) (shift_field k ax (Momx s))
              (shift_field k ax (Momy s)) (vol_of cfg)
            = (shift_field k ax rho, shift_field k ax vx, shift_field k ax vy)"
    using shift_primitive_variables [OF p gs, of k ax] .
  have d': "get_dt cfg (shift_state k ax s) (shift_field k ax vx) (shift_field k ax vy) = (dt', plot')"
    using shift_get_dt [OF gp(2,3)] d by simp
  show ?thesis
    by (simp add: face_states_def Let_def p' d'
        shift_grad [OF g1 gp(1)] shift_grad [OF g2 gp(2)] shift_grad [OF g3 gp(3)]
        shift_half_step [OF h gp gg]
        shift_extrapolate [OF e(3) gh(1) gg(1,2)]
        shift_extrapolate [OF e(4) gh(2) gg(3,4)]
        shift_extrapolate [OF e(5) gh(3) gg(5,6)])
       (simp add: e(1,2))
qed

text \<open>
  Claim C10. One turn of the loop commutes with the cyclic translation of the grid: for
  every state whose arrays have one shape, every axis and every number of cells \<open>k\<close> (in
  particular one cell), translating the three conserved arrays and then doing one turn
  gives the same state as doing one turn and then translating. The time step, the time
  and the frames are the same in both.
\<close>

theorem step_commutes_with_shift:
  assumes "wf_state n m s"
  shows "step cfg (shift_state k ax s) = shift_state k ax (step cfg s)"
proof -
  obtain dt plotThisTurn rho_XL rho_XR rho_YL rho_YR vx_XL vx_XR vx_YL vx_YR
    vy_XL vy_XR vy_YL vy_YR
  where fs: "face_states cfg s =
           (dt, plotThisTurn, (rho_XL, rho_XR, rho_YL, rho_YR), (vx_XL, vx_XR, vx_YL, vx_YR),
            (vy_XL, vy_XR, vy_YL, vy_YR))"
    and g: "grid n m rho_XL" "grid n m rho_XR" "grid n m rho_YL" "grid n m rho_YR"
      "grid n m vx_XL" "grid n m vx_XR" "grid n m vx_YL" "grid n m vx_YR"
      "grid n m vy_XL" "grid n m vy_XR" "grid n m vy_YL" "grid n m vy_YR"
    using face_states_cases [OF assms, of cfg] by metis
  have gs: "grid n m (Mass s)" "grid n m (Momx s)" "grid n m (Momy s)"
    using assms(1) by (simp_all add: wf_state_def)
  obtain fMX fPxX fPyX where
    x: "get_flux rho_XL rho_XR vx_XL vx_XR vy_XL vy_XR = (fMX, fPxX, fPyX)"
    by (metis prod_cases3)
  obtain fMY fPyY fPxY where
    y: "get_flux rho_YL rho_YR vy_YL vy_YR vx_YL vx_YR = (fMY, fPyY, fPxY)"
    by (metis prod_cases3)
  have gx: "grid n m fMX" "grid n m fPxX" "grid n m fPyX"
    using grid_get_flux [OF x, of n m] g by simp_all
  have gy: "grid n m fMY" "grid n m fPyY" "grid n m fPxY"
    using grid_get_flux [OF y, of n m] g by simp_all
  have x': "get_flux (shift_field k ax rho_XL) (shift_field k ax rho_XR) (shift_field k ax vx_XL)
              (shift_field k ax vx_XR) (shift_field k ax vy_XL) (shift_field k ax vy_XR)
            = (shift_field k ax fMX, shift_field k ax fPxX, shift_field k ax fPyX)"
    using shift_get_flux [OF x] g by simp
  have y': "get_flux (shift_field k ax rho_YL) (shift_field k ax rho_YR) (shift_field k ax vy_YL)
              (shift_field k ax vy_YR) (shift_field k ax vx_YL) (shift_field k ax vx_YR)
            = (shift_field k ax fMY, shift_field k ax fPyY, shift_field k ax fPxY)"
    using shift_get_flux [OF y] g by simp
  note a = shift_apply_flux [OF gs(1) gx(1) gy(1), of k ax "dx_of cfg" dt]
      shift_apply_flux [OF gs(2) gx(2) gy(3), of k ax "dx_of cfg" dt]
      shift_apply_flux [OF gs(3) gx(3) gy(2), of k ax "dx_of cfg" dt]
  have l: "step cfg (shift_state k ax s) =
      \<lparr>Mass = shift_field k ax (apply_flux (Mass s) fMX fMY (dx_of cfg) dt),
       Momx = shift_field k ax (apply_flux (Momx s) fPxX fPxY (dx_of cfg) dt),
       Momy = shift_field k ax (apply_flux (Momy s) fPyX fPyY (dx_of cfg) dt),
       t = t s + dt,
       outputCount = (if plotThisTurn then outputCount s + 1 else outputCount s),
       frames = (if plotThisTurn then frames s @ [t s + dt] else frames s)\<rparr>"
    by (simp add: step_def [of cfg "shift_state k ax s"] Let_def
        shift_face_states [OF assms fs] x' y' a)
  have r: "step cfg s =
      \<lparr>Mass = apply_flux (Mass s) fMX fMY (dx_of cfg) dt,
       Momx = apply_flux (Momx s) fPxX fPxY (dx_of cfg) dt,
       Momy = apply_flux (Momy s) fPyX fPyY (dx_of cfg) dt,
       t = t s + dt,
       outputCount = (if plotThisTurn then outputCount s + 1 else outputCount s),
       frames = (if plotThisTurn then frames s @ [t s + dt] else frames s)\<rparr>"
    by (simp add: step_def Let_def fs x y)
  show ?thesis
    unfolding l r by (simp add: shift_state_def)
qed


theorem step_commutes_with_shift_witness:
  "wf_state 2 2 example_state
   \<and> step example_config (shift_state 1 aX example_state)
       = shift_state 1 aX (step example_config example_state)
   \<and> step example_config (shift_state 1 aY example_state)
       = shift_state 1 aY (step example_config example_state)"
  using step_commutes_with_shift [of 2 2 example_state example_config 1 aX]
    step_commutes_with_shift [of 2 2 example_state example_config 1 aY]
  by (simp add: wf_state_def grid_def example_state_def)

end
